theory Spec2Isabelle
  imports Main "HOL-Library.Word"
begin

section \<open>UnpackORM: a shallow embedding of \<^verbatim>\<open>UnpackORM.py\<close>\<close>

text \<open>
  The program splits a packed texture into grayscale maps. Its own code is the
  functions \<^verbatim>\<open>load_image_rgb_or_rgba\<close>, \<^verbatim>\<open>channel_by_letter\<close>, \<^verbatim>\<open>maybe_invert\<close>,
  \<^verbatim>\<open>save_grayscale\<close>, \<^verbatim>\<open>unpack_orm\<close>, the table \<^verbatim>\<open>PRESETS\<close>, and the two batch
  loops (\<^verbatim>\<open>iter_images_in_folder\<close> with \<^verbatim>\<open>process_texture\<close>, and \<^verbatim>\<open>run_cli\<close>).
  Everything below the program (Pillow, \<^verbatim>\<open>os.path\<close>, the file system) is modelled
  in the first three subsections, as far as the program uses it.
\<close>

subsection \<open>Errors and images\<close>

text \<open>
  Exceptions are values. \<open>DecodeError\<close> stands for whatever \<^verbatim>\<open>Image.open\<close> raises
  (a missing file, a directory, a file that is no image); \<open>OSError\<close> for a failing
  \<^verbatim>\<open>os.makedirs\<close> or a file that cannot be opened for writing; \<open>ValueError\<close> and
  \<open>KeyError\<close> are Python's own, with their message or key.
\<close>

datatype error = DecodeError | ValueError string | KeyError string | OSError

type_synonym byte = "8 word"

text \<open>
  A Pillow image: its mode string, its width and height, and one list of 8-bit
  samples per band. The program reads samples only from images in the modes
  \<^verbatim>\<open>RGB\<close>, \<^verbatim>\<open>RGBA\<close> and \<^verbatim>\<open>L\<close>, which are 8 bits deep; an image of another mode is
  only passed on to \<^verbatim>\<open>convert\<close>. Pillow reads the samples of a file lazily, at the
  first \<^verbatim>\<open>split\<close>, \<^verbatim>\<open>convert\<close>, \<^verbatim>\<open>eval\<close> or \<^verbatim>\<open>save\<close>: \<open>readable\<close> says whether that
  succeeds; it is false for the image of a file whose header is sound and whose
  data is cut short. An image made in memory is readable.
\<close>

record image =
  mode :: string
  dims :: "nat \<times> nat"
  bands :: "byte list list"
  readable :: bool

text \<open>The number of bands Pillow gives the three modes the program works in.\<close>

definition well_formed :: "image \<Rightarrow> bool" where
  "well_formed img =
     ((if mode img = ''RGBA'' then length (bands img) = 4
       else if mode img = ''RGB'' then length (bands img) = 3
       else if mode img = ''L'' then length (bands img) = 1
       else True)
      \<and> list_all (\<lambda>b. length b = fst (dims img) * snd (dims img)) (bands img))"

text \<open>
  The parts of Pillow that are not the program's: \<^verbatim>\<open>Image.convert\<close>, which may
  refuse a conversion (as it does for an image that is not readable), and the
  registry \<^verbatim>\<open>Image.EXTENSION\<close> that \<^verbatim>\<open>Image.save\<close> consults to pick the file format
  from the (lower-cased) extension of the path.
\<close>

record imaging =
  convert :: "image \<Rightarrow> string \<Rightarrow> error + image"
  extension :: "string \<Rightarrow> string option"

text \<open>What the program relies on: a conversion that succeeds gives a well-formed
  image of the mode asked for, of the same width and height.\<close>

definition convert_ok :: "imaging \<Rightarrow> bool" where
  "convert_ok lib =
     (\<forall>img m img'. convert lib img m = Inr img' \<longrightarrow>
        mode img' = m \<and> dims img' = dims img \<and> well_formed img')"

text \<open>\<^verbatim>\<open>Image.split\<close> reads the samples, which raises an \<^verbatim>\<open>OSError\<close> when they cannot
  be read; a single-band image is copied as it is, a multi-band image gives one
  \<^verbatim>\<open>L\<close> image per band.\<close>

definition Image_split :: "image \<Rightarrow> error + image list" where
  "Image_split img =
     (if \<not> readable img then Inl OSError
      else if length (bands img) = 1 then Inr [img]
      else Inr (map (\<lambda>b. \<lparr>mode = ''L'', dims = dims img, bands = [b], readable = True\<rparr>)
                  (bands img)))"

text \<open>\<^verbatim>\<open>Image.eval\<close> on an 8-bit image reads the samples and applies the function
  to every one of them.\<close>

definition Image_eval :: "image \<Rightarrow> (byte \<Rightarrow> byte) \<Rightarrow> error + image" where
  "Image_eval img f =
     (if \<not> readable img then Inl OSError
      else Inr (img\<lparr>bands := map (map f) (bands img)\<rparr>))"

subsection \<open>Strings and paths (\<^verbatim>\<open>str.lower\<close>, POSIX \<^verbatim>\<open>os.path\<close>)\<close>

text \<open>\<^verbatim>\<open>str.lower\<close> on the ASCII letters; every other character is kept.\<close>

definition lower_char :: "char \<Rightarrow> char" where
  "lower_char c =
     (case map_of (zip ''ABCDEFGHIJKLMNOPQRSTUVWXYZ'' ''abcdefghijklmnopqrstuvwxyz'') c of
        Some l \<Rightarrow> l
      | None \<Rightarrow> c)"

definition str_lower :: "string \<Rightarrow> string" where
  "str_lower s = map lower_char s"

text \<open>\<^verbatim>\<open>str.rfind\<close> of a single character: the last index, or \<open>-1\<close>.\<close>

fun rfind :: "string \<Rightarrow> char \<Rightarrow> int" where
  "rfind [] c = -1"
| "rfind (x # xs) c =
     (let r = rfind xs c in if 0 \<le> r then r + 1 else if x = c then 0 else -1)"

text \<open>\<^verbatim>\<open>posixpath.basename\<close>: \<^verbatim>\<open>i = p.rfind('/') + 1; return p[i:]\<close>.\<close>

definition os_path_basename :: "string \<Rightarrow> string" where
  "os_path_basename p = drop (nat (rfind p (CHR ''/'') + 1)) p"

text \<open>
  \<^verbatim>\<open>posixpath.splitext\<close> (\<^verbatim>\<open>genericpath._splitext\<close>): split at the last dot, when
  it comes after the last separator and some character between the two is not a
  dot. \<open>skip_dots\<close> is its loop over the leading dots of the file name.
\<close>

function skip_dots :: "string \<Rightarrow> nat \<Rightarrow> nat \<Rightarrow> bool" where
  "skip_dots p filenameIndex dotIndex =
     (if filenameIndex < dotIndex then
        (if p ! filenameIndex \<noteq> CHR ''.'' then True
         else skip_dots p (filenameIndex + 1) dotIndex)
      else False)"
  by pat_completeness auto
termination
  by (relation "measure (\<lambda>(p, i, d). d - i)") auto

declare skip_dots.simps [simp del]

definition os_path_splitext :: "string \<Rightarrow> string \<times> string" where
  "os_path_splitext p =
     (let sepIndex = rfind p (CHR ''/'');
          dotIndex = rfind p (CHR ''.'')
      in if sepIndex < dotIndex \<and> skip_dots p (nat (sepIndex + 1)) (nat dotIndex)
         then (take (nat dotIndex) p, drop (nat dotIndex) p)
         else (p, []))"

text \<open>\<^verbatim>\<open>posixpath.join\<close> of two parts.\<close>

definition os_path_join :: "string \<Rightarrow> string \<Rightarrow> string" where
  "os_path_join a b =
     (if b \<noteq> [] \<and> hd b = CHR ''/'' then b
      else if a = [] \<or> last a = CHR ''/'' then a @ b
      else a @ ''/'' @ b)"

subsection \<open>The file system\<close>

text \<open>
  A path names a node: whether it starts at the root, and its components, the
  empty ones and \<^verbatim>\<open>.\<close> left out, so that \<^verbatim>\<open>out\<close>, \<^verbatim>\<open>out/\<close> and \<^verbatim>\<open>./out\<close> are one
  directory. (\<^verbatim>\<open>..\<close> and symbolic links are not resolved.)
\<close>

fun split_sep :: "string \<Rightarrow> string list" where
  "split_sep [] = [[]]"
| "split_sep (c # cs) =
     (if c = CHR ''/'' then [] # split_sep cs
      else case split_sep cs of x # xs \<Rightarrow> (c # x) # xs | [] \<Rightarrow> [[c]])"

type_synonym node = "bool \<times> string list"

definition node_of :: "string \<Rightarrow> node" where
  "node_of p =
     (p \<noteq> [] \<and> hd p = CHR ''/'',
      filter (\<lambda>c. c \<noteq> [] \<and> c \<noteq> ''.'') (split_sep p))"

text \<open>
  A regular file either holds an image, \<open>Encoded f img\<close>: a file of format \<open>f\<close>
  that \<^verbatim>\<open>Image.open\<close> opens as \<open>img\<close> (for a lossless format, the image that was
  saved), or something else.
\<close>

datatype file_content = Encoded string image | Other

record filesystem =
  dirs :: "node set"
  files :: "node \<rightharpoonup> file_content"

text \<open>The root and the working directory always exist.\<close>

definition is_dir :: "filesystem \<Rightarrow> node \<Rightarrow> bool" where
  "is_dir fs n = (snd n = [] \<or> n \<in> dirs fs)"

definition is_file :: "filesystem \<Rightarrow> node \<Rightarrow> bool" where
  "is_file fs n = (\<not> is_dir fs n \<and> files fs n \<noteq> None)"

text \<open>
  A path that ends with a separator or with the component \<^verbatim>\<open>.\<close> can only name a
  directory: on a regular file \<^verbatim>\<open>f.txt\<close>, the paths \<^verbatim>\<open>f.txt/\<close> and \<^verbatim>\<open>f.txt/.\<close> name
  nothing.
\<close>

definition names_dir :: "string \<Rightarrow> bool" where
  "names_dir p = (last (split_sep p) = [] \<or> last (split_sep p) = ''.'')"

definition os_path_exists :: "filesystem \<Rightarrow> string \<Rightarrow> bool" where
  "os_path_exists fs p =
     (p \<noteq> [] \<and> (is_dir fs (node_of p) \<or> is_file fs (node_of p) \<and> \<not> names_dir p))"

text \<open>The non-empty prefixes of a component list: a directory and all above it.\<close>

fun prefixes_of :: "string list \<Rightarrow> string list list" where
  "prefixes_of [] = []"
| "prefixes_of (c # cs) = [c] # map ((#) c) (prefixes_of cs)"

text \<open>
  \<^verbatim>\<open>os.makedirs(p, exist_ok=True)\<close>: creates the directory and the missing ones
  above it; it fails on the empty path and when a regular file is in the way.
\<close>

definition os_makedirs :: "filesystem \<Rightarrow> string \<Rightarrow> error + filesystem" where
  "os_makedirs fs p =
     (let above = map (Pair (fst (node_of p))) (prefixes_of (snd (node_of p)))
      in if p = [] \<or> list_ex (is_file fs) above then Inl OSError
         else Inr (fs\<lparr>dirs := dirs fs \<union> set above\<rparr>))"

text \<open>
  \<^verbatim>\<open>Image.open\<close>: the image of a regular file, as far as its header tells; the
  samples are read later, so a file with a sound header opens even when its
  data cannot be read (its image is not \<open>readable\<close>).
\<close>

definition Image_open :: "filesystem \<Rightarrow> string \<Rightarrow> error + image" where
  "Image_open fs p =
     (if p = [] \<or> names_dir p \<or> is_dir fs (node_of p) then Inl DecodeError
      else case files fs (node_of p) of
             Some (Encoded f img) \<Rightarrow> Inr img
           | _ \<Rightarrow> Inl DecodeError)"

text \<open>
  \<^verbatim>\<open>Image.save(path)\<close>: the samples are read first; the format comes from the
  extension of the path (an extension that is not registered is a
  \<^verbatim>\<open>ValueError\<close>); then the file is opened for writing, which fails when the path
  is a directory or the directory it lies in does not exist. No directory is
  ever created.
\<close>

definition Image_save :: "imaging \<Rightarrow> filesystem \<Rightarrow> image \<Rightarrow> string \<Rightarrow> error + filesystem" where
  "Image_save lib fs img p =
     (if \<not> readable img then Inl OSError
      else
       (let ext = str_lower (snd (os_path_splitext p)) in
        case extension lib ext of
          None \<Rightarrow> Inl (ValueError (''unknown file extension: '' @ ext))
        | Some f \<Rightarrow>
            (let n = node_of p in
             if p = [] \<or> names_dir p \<or> is_dir fs n
                \<or> \<not> is_dir fs (fst n, butlast (snd n))
             then Inl OSError
             else Inr (fs\<lparr>files := (files fs)(n \<mapsto> Encoded f img)\<rparr>))))"

subsection \<open>The program: core image logic\<close>


definition load_image_rgb_or_rgba :: "imaging \<Rightarrow> filesystem \<Rightarrow> string \<Rightarrow> error + image" where
  "load_image_rgb_or_rgba lib fs path =
     (case Image_open fs path of
        Inl e \<Rightarrow> Inl e
      | Inr img0 \<Rightarrow>
          (case (if mode img0 \<in> {''P'', ''LA''} then convert lib img0 ''RGBA'' else Inr img0) of
             Inl e \<Rightarrow> Inl e
           | Inr img \<Rightarrow>
               if mode img = ''RGBA'' then Inr img
               else if mode img \<noteq> ''RGB'' then convert lib img ''RGB''
               else Inr img))"

text \<open>The dictionary \<^verbatim>\<open>PRESETS\<close>, in the order it is written (the order of its keys
  decides the default of the command line and of the form).\<close>

definition PRESETS :: "(string \<times> string \<times> string \<times> string) list" where
  "PRESETS =
     [(''ORM (R=AO, G=Roughness, B=Metallic)'', (''R'', ''G'', ''B'')),
      (''MRA (R=Metallic, G=Roughness, B=AO)'', (''B'', ''G'', ''R'')),
      (''RMA (R=Roughness, G=Metallic, B=AO)'', (''B'', ''R'', ''G''))]"

text \<open>The default of the parameter \<^verbatim>\<open>preset_name\<close> of \<^verbatim>\<open>unpack_orm\<close>.\<close>

definition default_preset_name :: string where
  "default_preset_name = ''ORM (R=AO, G=Roughness, B=Metallic)''"

text \<open>\<^verbatim>\<open>r, g, b = img.split()[:3]\<close> fails on fewer than three bands; the dictionary
  lookup fails on a letter that is none of the three.\<close>

definition channel_by_letter :: "image \<Rightarrow> string \<Rightarrow> error + image" where
  "channel_by_letter img letter =
     (case Image_split img of
        Inl e \<Rightarrow> Inl e
      | Inr channels \<Rightarrow>
          (case take 3 channels of
             [r, g, b] \<Rightarrow>
               (case map_of [(''R'', r), (''G'', g), (''B'', b)] letter of
                  Some ch \<Rightarrow> Inr ch
                | None \<Rightarrow> Inl (KeyError letter))
           | _ \<Rightarrow> Inl (ValueError ''not enough values to unpack'')))"

definition maybe_invert :: "image \<Rightarrow> bool \<Rightarrow> error + image" where
  "maybe_invert ch do_invert =
     (if \<not> do_invert then Inr ch else Image_eval ch (\<lambda>px. 255 - px))"

definition save_grayscale :: "imaging \<Rightarrow> filesystem \<Rightarrow> image \<Rightarrow> string \<Rightarrow> error + filesystem" where
  "save_grayscale lib fs ch out_path =
     (case (if mode ch \<noteq> ''L'' then convert lib ch ''L'' else Inr ch) of
        Inl e \<Rightarrow> Inl e
      | Inr ch' \<Rightarrow> Image_save lib fs ch' out_path)"

text \<open>
  \<^verbatim>\<open>unpack_orm\<close> returns the four paths, or the exception raised, and in both cases
  the file system as the call leaves it.
\<close>

type_synonym saved_paths = "string \<times> string \<times> string \<times> string option"

definition unpack_orm ::
  "imaging \<Rightarrow> filesystem \<Rightarrow> string \<Rightarrow> string \<Rightarrow> string \<Rightarrow> bool \<Rightarrow> bool \<Rightarrow> bool
     \<Rightarrow> (error + saved_paths) \<times> filesystem" where
  "unpack_orm lib fs input_path output_dir preset_name
       invert_roughness invert_metallic export_alpha_as_height =
   (case (if \<not> os_path_exists fs output_dir then os_makedirs fs output_dir else Inr fs) of
      Inl e \<Rightarrow> (Inl e, fs)
    | Inr fs1 \<Rightarrow>
   (case load_image_rgb_or_rgba lib fs1 input_path of
      Inl e \<Rightarrow> (Inl e, fs1)
    | Inr img \<Rightarrow>
   (let base = fst (os_path_splitext (os_path_basename input_path));
        ao_path = os_path_join output_dir (base @ ''_AO.png'');
        rough_path = os_path_join output_dir (base @ ''_Roughness.png'');
        metal_path = os_path_join output_dir (base @ ''_Metallic.png'');
        height_path = os_path_join output_dir (base @ ''_Height.png'')
    in
    case map_of PRESETS preset_name of
      None \<Rightarrow> (Inl (ValueError (''Unknown preset: '' @ preset_name)), fs1)
    | Some (ao_from, rough_from, metal_from) \<Rightarrow>
   (case channel_by_letter img ao_from of
      Inl e \<Rightarrow> (Inl e, fs1)
    | Inr ao_ch \<Rightarrow>
   (case channel_by_letter img rough_from of
      Inl e \<Rightarrow> (Inl e, fs1)
    | Inr rough_src \<Rightarrow>
   (case maybe_invert rough_src invert_roughness of
      Inl e \<Rightarrow> (Inl e, fs1)
    | Inr rough_ch \<Rightarrow>
   (case channel_by_letter img metal_from of
      Inl e \<Rightarrow> (Inl e, fs1)
    | Inr metal_src \<Rightarrow>
   (case maybe_invert metal_src invert_metallic of
      Inl e \<Rightarrow> (Inl e, fs1)
    | Inr metal_ch \<Rightarrow>
   (case save_grayscale lib fs1 ao_ch ao_path of
      Inl e \<Rightarrow> (Inl e, fs1)
    | Inr fs2 \<Rightarrow>
   (case save_grayscale lib fs2 rough_ch rough_path of
      Inl e \<Rightarrow> (Inl e, fs2)
    | Inr fs3 \<Rightarrow>
   (case save_grayscale lib fs3 metal_ch metal_path of
      Inl e \<Rightarrow> (Inl e, fs3)
    | Inr fs4 \<Rightarrow>
   (if export_alpha_as_height \<and> mode img = ''RGBA'' then
      (case Image_split img of
         Inl e \<Rightarrow> (Inl e, fs4)
       | Inr [_, _, _, a] \<Rightarrow>
           (case save_grayscale lib fs4 a height_path of
              Inl e \<Rightarrow> (Inl e, fs4)
            | Inr fs5 \<Rightarrow> (Inr (ao_path, rough_path, metal_path, Some height_path), fs5))
       | Inr _ \<Rightarrow> (Inl (ValueError ''wrong number of values to unpack''), fs4))
    else (Inr (ao_path, rough_path, metal_path, None), fs4)))))))))))))"

subsection \<open>The program: batch traversal\<close>



text \<open>The options of the form, which \<^verbatim>\<open>process_single\<close> hands to \<^verbatim>\<open>unpack_orm\<close>.\<close>

record request =
  preset :: string
  invert_rough :: bool
  invert_metal :: bool
  export_alpha_height :: bool








subsection \<open>Vocabulary of the properties\<close>

text \<open>The channel index a preset letter names: R is 0, G is 1, B is 2.\<close>

definition channel_index :: "string \<Rightarrow> nat" where
  "channel_index letter = (if letter = ''R'' then 0 else if letter = ''G'' then 1 else 2)"

text \<open>A normalized image: mode \<^verbatim>\<open>RGB\<close> or \<^verbatim>\<open>RGBA\<close>, with the bands of that mode.\<close>

definition normalized :: "image \<Rightarrow> bool" where
  "normalized img = (well_formed img \<and> mode img \<in> {''RGB'', ''RGBA''})"

text \<open>The single-channel image holding one band of an image.\<close>

definition band_image :: "image \<Rightarrow> byte list \<Rightarrow> image" where
  "band_image img b = \<lparr>mode = ''L'', dims = dims img, bands = [b], readable = True\<rparr>"

text \<open>The first statement of \<^verbatim>\<open>unpack_orm\<close>: the output folder is created when no
  such path exists.\<close>

definition ensure_output_dir :: "filesystem \<Rightarrow> string \<Rightarrow> error + filesystem" where
  "ensure_output_dir fs output_dir =
     (if \<not> os_path_exists fs output_dir then os_makedirs fs output_dir else Inr fs)"

text \<open>
  A path that is a directory or can be made one: it is not empty, and neither it
  nor a directory above it is a regular file.
\<close>

definition creatable :: "filesystem \<Rightarrow> string \<Rightarrow> bool" where
  "creatable fs p =
     (p \<noteq> [] \<and> \<not> list_ex (is_file fs) (map (Pair (fst (node_of p))) (prefixes_of (snd (node_of p)))))"

text \<open>The file system once such a path has been made a directory, if it did not
  exist.\<close>

definition with_dir :: "filesystem \<Rightarrow> string \<Rightarrow> filesystem" where
  "with_dir fs p =
     (if os_path_exists fs p then fs
      else fs\<lparr>dirs := dirs fs \<union> set (map (Pair (fst (node_of p))) (prefixes_of (snd (node_of p))))\<rparr>)"

text \<open>The path \<^verbatim>\<open>unpack_orm\<close> computes for the output with a given suffix.\<close>

abbreviation base_of :: "string \<Rightarrow> string" where
  "base_of input_path \<equiv> fst (os_path_splitext (os_path_basename input_path))"

definition output_path :: "string \<Rightarrow> string \<Rightarrow> string \<Rightarrow> string" where
  "output_path output_dir input_path suffix = os_path_join output_dir (base_of input_path @ suffix)"


text \<open>Two file systems that agree on the directories, and on the files but for
  the nodes in \<open>N\<close>.\<close>

definition agree_outside :: "node set \<Rightarrow> filesystem \<Rightarrow> filesystem \<Rightarrow> bool" where
  "agree_outside N s t = (dirs s = dirs t \<and> (\<forall>n. n \<notin> N \<longrightarrow> files s n = files t n))"

subsection \<open>A small example\<close>

text \<open>
  A 2 by 2 RGBA texture \<^verbatim>\<open>in/tex.png\<close> with the pixel (10, 20, 30, 40) everywhere and
  a palette image \<^verbatim>\<open>in/pal.png\<close>, in a file system without the output folder \<^verbatim>\<open>out\<close>,
  and a library that writes PNG files and converts nothing.
\<close>

definition ex_img :: image where
  "ex_img = \<lparr>mode = ''RGBA'', dims = (2, 2),
      bands = [[10, 10, 10, 10], [20, 20, 20, 20], [30, 30, 30, 30], [40, 40, 40, 40]],
      readable = True\<rparr>"

text \<open>A one-pixel palette image, and a library whose \<^verbatim>\<open>convert\<close> returns a black
  image of the mode asked for.\<close>

definition ex_pal :: image where
  "ex_pal = \<lparr>mode = ''P'', dims = (1, 1), bands = [[7]], readable = True\<rparr>"

definition ex_conv :: imaging where
  "ex_conv = \<lparr>convert = (\<lambda>img m. Inr \<lparr>mode = m, dims = dims img,
        bands = replicate (if m = ''RGBA'' then 4 else if m = ''RGB'' then 3 else 1)
                  (replicate (fst (dims img) * snd (dims img)) 0),
        readable = True\<rparr>),
      extension = (\<lambda>e. if e = ''.png'' then Some ''PNG'' else None)\<rparr>"

definition ex_lib :: imaging where
  "ex_lib = \<lparr>convert = (\<lambda>img m. Inl (ValueError ''conversion not supported'')),
      extension = (\<lambda>e. if e = ''.png'' then Some ''PNG'' else None)\<rparr>"

definition ex_fs :: filesystem where
  "ex_fs = \<lparr>dirs = {(False, [''in''])},
      files = [(False, [''in'', ''tex.png'']) \<mapsto> Encoded ''PNG'' ex_img,
               (False, [''in'', ''pal.png'']) \<mapsto> Encoded ''PNG'' ex_pal]\<rparr>"



section \<open>Lemmas about the model\<close>

subsection \<open>Searching a string\<close>

lemma nat_int_Suc: "nat (int n + 1) = Suc n"
  by linarith

lemma rfind_bounds: "- 1 \<le> rfind xs c \<and> rfind xs c < int (length xs)"
  by (induction xs) (auto simp: Let_def)

lemma rfind_notin: "c \<notin> set xs \<Longrightarrow> rfind xs c = - 1"
  by (induction xs) (auto simp: Let_def)

lemma rfind_last: "c \<notin> set b \<Longrightarrow> rfind (a @ c # b) c = int (length a)"
  by (induction a) (auto simp: Let_def rfind_notin)

lemma rfind_suffix_free:
  assumes "c \<notin> set b"
  shows "rfind (a @ b) c = rfind a c"
proof (cases "c \<in> set a")
  case True
  then obtain u v where a: "a = u @ c # v" and v: "c \<notin> set v"
    by (meson split_list_last)
  have "rfind (u @ c # (v @ b)) c = int (length u)"
    by (rule rfind_last) (use v assms in simp)
  moreover have "rfind (u @ c # v) c = int (length u)"
    by (rule rfind_last) (rule v)
  ultimately show ?thesis by (simp add: a)
next
  case False
  with assms show ?thesis by (simp add: rfind_notin)
qed

lemma basename_no_sep: "CHR ''/'' \<notin> set (os_path_basename p)"
proof (cases "CHR ''/'' \<in> set p")
  case True
  then obtain u v where p: "p = u @ CHR ''/'' # v" and v: "CHR ''/'' \<notin> set v"
    by (meson split_list_last)
  have "rfind p (CHR ''/'') = int (length u)"
    unfolding p by (rule rfind_last) (rule v)
  then have "os_path_basename p = v"
    by (simp add: os_path_basename_def p nat_int_Suc)
  with v show ?thesis by simp
next
  case False
  then show ?thesis
    by (simp add: os_path_basename_def rfind_notin)
qed

lemma basename_append:
  "CHR ''/'' \<notin> set x \<Longrightarrow> os_path_basename (d @ CHR ''/'' # x) = x"
  by (simp add: os_path_basename_def rfind_last nat_int_Suc)

lemma basename_plain: "CHR ''/'' \<notin> set x \<Longrightarrow> os_path_basename x = x"
  by (simp add: os_path_basename_def rfind_notin)

subsection \<open>splitext\<close>

lemma skip_dots_iff:
  "skip_dots p i d \<longleftrightarrow> (\<exists>j. i \<le> j \<and> j < d \<and> p ! j \<noteq> CHR ''.'')"
proof (induction p i d rule: skip_dots.induct)
  case (1 p i d)
  show ?case
  proof (cases "i < d")
    case False
    then show ?thesis by (subst skip_dots.simps) auto
  next
    case True
    show ?thesis
    proof (cases "p ! i \<noteq> CHR ''.''")
      case nd: True
      with True show ?thesis by (subst skip_dots.simps) auto
    next
      case dot: False
      have "skip_dots p i d = skip_dots p (i + 1) d"
        using True dot by (subst skip_dots.simps) simp
      also have "\<dots> \<longleftrightarrow> (\<exists>j. i + 1 \<le> j \<and> j < d \<and> p ! j \<noteq> CHR ''.'')"
        using "1.IH" True dot by simp
      also have "\<dots> \<longleftrightarrow> (\<exists>j. i \<le> j \<and> j < d \<and> p ! j \<noteq> CHR ''.'')"
      proof
        assume "\<exists>j. i + 1 \<le> j \<and> j < d \<and> p ! j \<noteq> CHR ''.''"
        then obtain j where "i + 1 \<le> j" "j < d" "p ! j \<noteq> CHR ''.''" by blast
        then have "i \<le> j \<and> j < d \<and> p ! j \<noteq> CHR ''.''" by simp
        then show "\<exists>j. i \<le> j \<and> j < d \<and> p ! j \<noteq> CHR ''.''" by blast
      next
        assume "\<exists>j. i \<le> j \<and> j < d \<and> p ! j \<noteq> CHR ''.''"
        then obtain j where j: "i \<le> j" "j < d" "p ! j \<noteq> CHR ''.''" by blast
        with dot have "j \<noteq> i" by auto
        with j have "i + 1 \<le> j \<and> j < d \<and> p ! j \<noteq> CHR ''.''" by simp
        then show "\<exists>j. i + 1 \<le> j \<and> j < d \<and> p ! j \<noteq> CHR ''.''" by blast
      qed
      finally show ?thesis .
    qed
  qed
qed

lemma splitext_fst_subset: "set (fst (os_path_splitext p)) \<subseteq> set p"
  by (auto simp: os_path_splitext_def Let_def dest: in_set_takeD)

lemma splitext_append:
  assumes e: "CHR ''.'' \<notin> set e" "CHR ''/'' \<notin> set e"
    and s: "CHR ''/'' \<notin> set s" "\<exists>c\<in>set s. c \<noteq> CHR ''.''"
  shows "os_path_splitext (pre @ s @ CHR ''.'' # e) = (pre @ s, CHR ''.'' # e)"
proof -
  let ?p = "pre @ s @ CHR ''.'' # e"
  have dot: "rfind ?p (CHR ''.'') = int (length (pre @ s))"
    using rfind_last [of "CHR ''.''" e "pre @ s"] e by simp
  have "CHR ''/'' \<notin> set (s @ CHR ''.'' # e)" using e s by simp
  then have "rfind (pre @ (s @ CHR ''.'' # e)) (CHR ''/'') = rfind pre (CHR ''/'')"
    by (rule rfind_suffix_free)
  then have sep: "rfind ?p (CHR ''/'') = rfind pre (CHR ''/'')" by simp
  have lt: "rfind pre (CHR ''/'') < int (length pre)" and ge: "- 1 \<le> rfind pre (CHR ''/'')"
    using rfind_bounds [of pre "CHR ''/''"] by simp_all
  from s obtain k where k: "k < length s" "s ! k \<noteq> CHR ''.''"
    by (metis in_set_conv_nth)
  have sk: "skip_dots ?p (nat (rfind pre (CHR ''/'') + 1)) (length (pre @ s))"
    unfolding skip_dots_iff
  proof (intro exI conjI)
    show "nat (rfind pre (CHR ''/'') + 1) \<le> length pre + k" using lt by linarith
    show "length pre + k < length (pre @ s)" using k by simp
    show "?p ! (length pre + k) \<noteq> CHR ''.''" using k by (simp add: nth_append)
  qed
  have n: "nat (rfind ?p (CHR ''.'')) = length (pre @ s)"
    unfolding dot by simp
  have c1: "rfind ?p (CHR ''/'') < rfind ?p (CHR ''.'')"
    unfolding dot sep using lt by simp
  have c2: "skip_dots ?p (nat (rfind ?p (CHR ''/'') + 1)) (nat (rfind ?p (CHR ''.'')))"
    unfolding n unfolding sep by (rule sk)
  have t: "take (length (pre @ s)) ?p = pre @ s" "drop (length (pre @ s)) ?p = CHR ''.'' # e"
    by simp_all
  show ?thesis
    unfolding os_path_splitext_def Let_def using c1 c2 t by (simp only: n if_True simp_thms)
qed

lemma base_no_sep:
  "CHR ''/'' \<notin> set (fst (os_path_splitext (os_path_basename p)))"
  using splitext_fst_subset [of "os_path_basename p"] basename_no_sep [of p] by blast

subsection \<open>join, nodes\<close>

lemma split_sep_nonempty [simp]: "split_sep p \<noteq> []"
  by (induction p) (auto split: list.splits)

lemma split_sep_plain: "CHR ''/'' \<notin> set x \<Longrightarrow> split_sep x = [x]"
  by (induction x) auto

lemma split_sep_append: "split_sep (a @ CHR ''/'' # b) = split_sep a @ split_sep b"
  by (induction a) (auto split: list.splits)

lemma split_sep_snoc_sep: "split_sep (a @ ''/'') = split_sep a @ [[]]"
  using split_sep_append [of a "[]"] by simp

lemma join_cases:
  assumes "CHR ''/'' \<notin> set x"
  shows "os_path_join d x = (if d = [] \<or> last d = CHR ''/'' then d @ x else d @ ''/'' @ x)"
  using assms by (cases x) (auto simp: os_path_join_def)

lemma node_of_join:
  assumes x: "CHR ''/'' \<notin> set x" "x \<noteq> []" "x \<noteq> ''.''"
  shows "node_of (os_path_join d x) = (fst (node_of d), snd (node_of d) @ [x])"
proof (cases "d = []")
  case True
  with x show ?thesis
    by (cases x) (auto simp: join_cases node_of_def split_sep_plain)
next
  case False
  note d = False
  show ?thesis
  proof (cases "last d = CHR ''/''")
    case True
    with d obtain d' where d': "d = d' @ ''/''"
      by (metis append_butlast_last_id)
    have hdd: "hd (d @ x) = hd d" using d by simp
    have "split_sep (d @ x) = split_sep d' @ [x]"
      using split_sep_append [of d' x] x by (simp add: d' split_sep_plain)
    moreover have "split_sep d = split_sep d' @ [[]]"
      unfolding d' by (rule split_sep_snoc_sep)
    ultimately show ?thesis
      using x d True hdd by (simp add: join_cases node_of_def)
  next
    case False
    have hdd: "hd (d @ ''/'' @ x) = hd d" using d by simp
    have "split_sep (d @ ''/'' @ x) = split_sep d @ [x]"
      using split_sep_append [of d x] x by (simp add: split_sep_plain)
    then show ?thesis
      using x d False hdd by (simp add: join_cases node_of_def)
  qed
qed

subsection \<open>Directories\<close>

lemma prefixes_of_self: "cs \<noteq> [] \<Longrightarrow> cs \<in> set (prefixes_of cs)"
  by (induction cs) auto

lemma prefixes_of_length: "x \<in> set (prefixes_of cs) \<Longrightarrow> length x \<le> length cs"
  by (induction cs arbitrary: x) auto

lemma makedirs_Inr:
  assumes "os_makedirs fs p = Inr fs1"
  shows "files fs1 = files fs" and "dirs fs \<subseteq> dirs fs1" and "p \<noteq> []"
    and "is_dir fs1 (node_of p)"
    and "fs1 = fs\<lparr>dirs := dirs fs \<union> set (map (Pair (fst (node_of p))) (prefixes_of (snd (node_of p))))\<rparr>"
    and "\<not> list_ex (is_file fs) (map (Pair (fst (node_of p))) (prefixes_of (snd (node_of p))))"
proof -
  let ?above = "map (Pair (fst (node_of p))) (prefixes_of (snd (node_of p)))"
  from assms have p: "p \<noteq> []" and fs1: "fs1 = fs\<lparr>dirs := dirs fs \<union> set ?above\<rparr>"
    and nf: "\<not> list_ex (is_file fs) ?above"
    by (auto simp: os_makedirs_def Let_def split: if_splits)
  show "files fs1 = files fs" "dirs fs \<subseteq> dirs fs1" "p \<noteq> []"
    using p fs1 by auto
  show "fs1 = fs\<lparr>dirs := dirs fs \<union> set ?above\<rparr>" by (rule fs1)
  show "\<not> list_ex (is_file fs) ?above" by (rule nf)
  show "is_dir fs1 (node_of p)"
  proof (cases "snd (node_of p) = []")
    case True
    then show ?thesis by (simp add: is_dir_def)
  next
    case False
    then have "snd (node_of p) \<in> set (prefixes_of (snd (node_of p)))"
      by (rule prefixes_of_self)
    then have "(fst (node_of p), snd (node_of p)) \<in> set ?above"
      by (cases "node_of p") (auto simp: image_iff)
    then show ?thesis by (simp add: is_dir_def fs1)
  qed
qed

lemma with_dir_simps [simp]:
  "files (with_dir fs d) = files fs"
  by (simp add: with_dir_def)

lemma with_dir_dirs: "dirs fs \<subseteq> dirs (with_dir fs d)"
  by (auto simp: with_dir_def)

lemma ensure_Inr:
  assumes "ensure_output_dir fs d = Inr fs1"
  shows "fs1 = with_dir fs d" and "d \<noteq> []" and "os_path_exists fs1 d"
    and "\<not> os_path_exists fs d \<Longrightarrow> is_dir fs1 (node_of d) \<and> \<not> is_dir fs (node_of d)"
    and "\<not> os_path_exists fs d \<Longrightarrow> os_makedirs fs d = Inr fs1"
proof -
  show w: "fs1 = with_dir fs d"
    using assms makedirs_Inr(5) [of fs d fs1]
    by (auto simp: ensure_output_dir_def with_dir_def split: if_splits)
  show d: "d \<noteq> []"
    using assms makedirs_Inr(3) [of fs d fs1]
    by (auto simp: ensure_output_dir_def os_path_exists_def split: if_splits)
  show "os_path_exists fs1 d"
  proof (cases "os_path_exists fs d")
    case True
    with assms show ?thesis by (simp add: ensure_output_dir_def)
  next
    case False
    with assms have "os_makedirs fs d = Inr fs1" by (simp add: ensure_output_dir_def)
    from makedirs_Inr(3,4) [OF this] show ?thesis by (simp add: os_path_exists_def)
  qed
  assume ne: "\<not> os_path_exists fs d"
  with assms show mk: "os_makedirs fs d = Inr fs1" by (simp add: ensure_output_dir_def)
  from makedirs_Inr(4) [OF mk] ne d
  show "is_dir fs1 (node_of d) \<and> \<not> is_dir fs (node_of d)"
    by (simp add: os_path_exists_def)
qed

lemma ensure_Inl: "ensure_output_dir fs d = Inl e \<Longrightarrow> e = OSError"
  by (auto simp: ensure_output_dir_def os_makedirs_def Let_def split: if_splits)

lemma ensure_creatable:
  assumes "creatable fs d"
  shows "ensure_output_dir fs d = Inr (with_dir fs d)" and "is_dir (with_dir fs d) (node_of d)"
proof -
  let ?above = "map (Pair (fst (node_of d))) (prefixes_of (snd (node_of d)))"
  from assms have d: "d \<noteq> []" and nf: "\<not> list_ex (is_file fs) ?above"
    by (simp_all add: creatable_def)
  show e: "ensure_output_dir fs d = Inr (with_dir fs d)"
    using d nf by (simp add: ensure_output_dir_def with_dir_def os_makedirs_def Let_def)
  show "is_dir (with_dir fs d) (node_of d)"
  proof (cases "os_path_exists fs d")
    case False
    with ensure_Inr(4) [OF e] show ?thesis by simp
  next
    case True
    show ?thesis
    proof (cases "snd (node_of d) = []")
      case True
      then show ?thesis by (simp add: is_dir_def)
    next
      case False
      then have "snd (node_of d) \<in> set (prefixes_of (snd (node_of d)))"
        by (rule prefixes_of_self)
      then have "(fst (node_of d), snd (node_of d)) \<in> set ?above"
        by (cases "node_of d") (auto simp: image_iff)
      with nf have "\<not> is_file fs (node_of d)" by (auto simp: list_ex_iff)
      with \<open>os_path_exists fs d\<close> show ?thesis
        by (auto simp: os_path_exists_def with_dir_def)
    qed
  qed
qed

text \<open>A node below the directory is none of the directories that are made.\<close>

lemma below_not_made:
  "is_dir (with_dir fs d) (fst (node_of d), snd (node_of d) @ [x])
     = is_dir fs (fst (node_of d), snd (node_of d) @ [x])"
proof -
  have "snd (node_of d) @ [x] \<notin> set (prefixes_of (snd (node_of d)))"
    using prefixes_of_length [of "snd (node_of d) @ [x]" "snd (node_of d)"] by auto
  then show ?thesis
    by (auto simp: with_dir_def is_dir_def)
qed

subsection \<open>Saving\<close>

lemma Image_save_Inr:
  assumes "Image_save lib fs img p = Inr fs'"
  shows "\<exists>f. extension lib (str_lower (snd (os_path_splitext p))) = Some f
             \<and> fs' = fs\<lparr>files := (files fs)(node_of p \<mapsto> Encoded f img)\<rparr>"
    and "readable img" and "p \<noteq> []" and "\<not> names_dir p" and "\<not> is_dir fs (node_of p)"
    and "is_dir fs (fst (node_of p), butlast (snd (node_of p)))"
  using assms by (auto simp: Image_save_def Let_def split: option.splits if_splits)


lemma save_grayscale_L: "mode ch = ''L'' \<Longrightarrow> save_grayscale lib fs ch p = Image_save lib fs ch p"
  by (simp add: save_grayscale_def)



lemma Image_save_succeeds:
  assumes "extension lib (str_lower (snd (os_path_splitext p))) = Some f"
    and "readable img"
    and "p \<noteq> []" and "\<not> names_dir p" and "\<not> is_dir fs (node_of p)"
    and "is_dir fs (fst (node_of p), butlast (snd (node_of p)))"
  shows "Image_save lib fs img p = Inr (fs\<lparr>files := (files fs)(node_of p \<mapsto> Encoded f img)\<rparr>)"
  using assms by (simp add: Image_save_def Let_def)

lemma Image_open_file:
  assumes "files fs n = Some (Encoded f img)" "n = node_of p" "p \<noteq> []" "\<not> names_dir p"
    "\<not> is_dir fs (node_of p)"
  shows "Image_open fs p = Inr img"
  using assms by (simp add: Image_open_def)

subsection \<open>Channels\<close>

lemma Image_split_Inr:
  assumes "Image_split img = Inr chs"
  shows "readable img"
    and "chs = (if length (bands img) = 1 then [img] else map (band_image img) (bands img))"
  using assms by (auto simp: Image_split_def band_image_def split: if_splits)

lemma Image_split_bands:
  assumes "readable img" "length (bands img) \<noteq> 1"
  shows "Image_split img = Inr (map (band_image img) (bands img))"
  using assms by (simp add: Image_split_def band_image_def)

lemma channel_by_letter_Inr:
  assumes "channel_by_letter img l = Inr ch"
  shows "l \<in> {''R'', ''G'', ''B''}" and "3 \<le> length (bands img)"
    and "ch = band_image img (bands img ! channel_index l)" and "readable img"
proof -
  from assms obtain chs where sp0: "Image_split img = Inr chs"
    by (auto simp: channel_by_letter_def split: sum.splits)
  note S = Image_split_Inr [OF sp0]
  show "readable img" by (rule S(1))
  from assms sp0 obtain r g b where t: "take 3 chs = [r, g, b]"
    by (auto simp: channel_by_letter_def split: list.splits)
  then have "length (take 3 chs) = 3" by simp
  then have len: "3 \<le> length chs" by simp
  with S(2) have n1: "length (bands img) \<noteq> 1" by (auto split: if_splits)
  with S(2) have sp: "chs = map (band_image img) (bands img)" by simp
  with len show "3 \<le> length (bands img)" by simp
  then obtain b0 b1 b2 rest where bs: "bands img = b0 # b1 # b2 # rest"
    by (metis Suc_le_length_iff numeral_3_eq_3)
  from t have rgb: "r = band_image img b0" "g = band_image img b1" "b = band_image img b2"
    by (simp_all add: sp bs)
  from assms sp0 t show "l \<in> {''R'', ''G'', ''B''}"
    by (auto simp: channel_by_letter_def split: if_splits)
  from assms sp0 t show "ch = band_image img (bands img ! channel_index l)"
    by (auto simp: channel_by_letter_def channel_index_def rgb bs split: if_splits)
qed

lemma channel_by_letter_succeeds:
  assumes "l \<in> {''R'', ''G'', ''B''}" and "3 \<le> length (bands img)" and "readable img"
  shows "channel_by_letter img l = Inr (band_image img (bands img ! channel_index l))"
proof -
  from assms(2) obtain b0 b1 b2 rest where bs: "bands img = b0 # b1 # b2 # rest"
    by (metis Suc_le_length_iff numeral_3_eq_3)
  then have "Image_split img = Inr (map (band_image img) (bands img))"
    using assms(3) by (intro Image_split_bands) auto
  with assms(1) bs show ?thesis
    by (auto simp: channel_by_letter_def channel_index_def)
qed

lemma band_image_simps [simp]:
  "mode (band_image img b) = ''L''" "readable (band_image img b)"
  "dims (band_image img b) = dims img" "bands (band_image img b) = [b]"
  by (simp_all add: band_image_def)

lemma channel_mode: "channel_by_letter img l = Inr ch \<Longrightarrow> mode ch = ''L''"
  using channel_by_letter_Inr(3) [of img l ch] by simp

lemma maybe_invert_band:
  "maybe_invert (band_image img b) flag =
     Inr (band_image img (map (\<lambda>v. if flag then 255 - v else v) b))"
  by (simp add: maybe_invert_def Image_eval_def band_image_def)

lemma PRESETS_letters:
  assumes "map_of PRESETS pn = Some (a, r, m)"
  shows "a \<in> {''R'', ''G'', ''B''}" "r \<in> {''R'', ''G'', ''B''}" "m \<in> {''R'', ''G'', ''B''}"
  using assms by (auto simp: PRESETS_def split: if_splits)

subsection \<open>The normalizer\<close>

lemma load_image_cases:
  assumes ok: "convert_ok lib" and op: "Image_open fs path = Inr raw"
  shows "load_image_rgb_or_rgba lib fs path =
           (if mode raw \<in> {''P'', ''LA''} then convert lib raw ''RGBA''
            else if mode raw \<in> {''RGB'', ''RGBA''} then Inr raw
            else convert lib raw ''RGB'')"
proof (cases "mode raw \<in> {''P'', ''LA''}")
  case True
  show ?thesis
  proof (cases "convert lib raw ''RGBA''")
    case (Inl e)
    with True op show ?thesis by (simp add: load_image_rgb_or_rgba_def)
  next
    case (Inr img)
    with ok have "mode img = ''RGBA''" by (auto simp: convert_ok_def)
    with True op Inr show ?thesis by (simp add: load_image_rgb_or_rgba_def)
  qed
next
  case False
  with op show ?thesis by (auto simp: load_image_rgb_or_rgba_def)
qed

text \<open>An image that loads before the folder is made loads after it.\<close>

lemma load_after_ensure:
  assumes l: "load_image_rgb_or_rgba lib fs p = Inr img" and e: "ensure_output_dir fs d = Inr fs1"
  shows "load_image_rgb_or_rgba lib fs1 p = Inr img"
proof -
  from l obtain raw where r: "Image_open fs p = Inr raw"
    by (auto simp: load_image_rgb_or_rgba_def split: sum.splits)
  then have p: "p \<noteq> []" "\<not> names_dir p" and nd: "\<not> is_dir fs (node_of p)"
    and f: "\<exists>f. files fs (node_of p) = Some (Encoded f raw)"
    by (auto simp: Image_open_def split: if_splits option.splits file_content.splits)
  then have isf: "is_file fs (node_of p)" by (auto simp: is_file_def)
  have "\<not> is_dir fs1 (node_of p)"
  proof (cases "os_path_exists fs d")
    case True
    with e nd show ?thesis by (simp add: ensure_output_dir_def)
  next
    case False
    from ensure_Inr(5) [OF e False] have mk: "os_makedirs fs d = Inr fs1" .
    from makedirs_Inr(6) [OF mk] isf
    have "node_of p \<notin> set (map (Pair (fst (node_of d))) (prefixes_of (snd (node_of d))))"
      by (auto simp: list_ex_iff)
    with nd show ?thesis
      unfolding makedirs_Inr(5) [OF mk] by (auto simp: is_dir_def)
  qed
  moreover from f have "\<exists>f. files fs1 (node_of p) = Some (Encoded f raw)"
    by (simp add: ensure_Inr(1) [OF e])
  ultimately have "Image_open fs1 p = Inr raw"
    using p by (auto simp: Image_open_def)
  with l r show ?thesis by (simp add: load_image_rgb_or_rgba_def)
qed

subsection \<open>Output paths\<close>


lemma str_lower_png: "str_lower ''.png'' = ''.png''"
  by (simp add: str_lower_def lower_char_def)

lemma output_path_ext:
  assumes "sfx = s @ ''.png''" and "CHR ''/'' \<notin> set s" and "\<exists>c\<in>set s. c \<noteq> CHR ''.''"
  shows "str_lower (snd (os_path_splitext (output_path d inp sfx))) = ''.png''"
proof -
  let ?b = "base_of inp"
  have nb: "CHR ''/'' \<notin> set ?b" by (rule base_no_sep)
  have nx: "CHR ''/'' \<notin> set (?b @ sfx)" using nb assms by simp
  obtain pre where pre: "output_path d inp sfx = pre @ (?b @ s) @ CHR ''.'' # ''png''"
    unfolding output_path_def join_cases [OF nx] using assms(1) by (cases "d = [] \<or> last d = CHR ''/''") auto
  have "os_path_splitext (pre @ (?b @ s) @ CHR ''.'' # ''png'') = (pre @ (?b @ s), CHR ''.'' # ''png'')"
    by (rule splitext_append) (use nb assms in auto)
  then show ?thesis by (simp add: pre str_lower_png)
qed

lemma output_path_ext4:
  "str_lower (snd (os_path_splitext (output_path d inp ''_AO.png''))) = ''.png''"
  "str_lower (snd (os_path_splitext (output_path d inp ''_Roughness.png''))) = ''.png''"
  "str_lower (snd (os_path_splitext (output_path d inp ''_Metallic.png''))) = ''.png''"
  "str_lower (snd (os_path_splitext (output_path d inp ''_Height.png''))) = ''.png''"
  by (rule output_path_ext [where s = "''_AO''"], simp, simp, simp)
     (rule output_path_ext [where s = "''_Roughness''"], simp, simp, simp,
      rule output_path_ext [where s = "''_Metallic''"], simp, simp, simp,
      rule output_path_ext [where s = "''_Height''"], simp, simp, simp)

lemma output_path_node:
  assumes "sfx \<noteq> []" "sfx \<noteq> ''.''" "CHR ''/'' \<notin> set sfx" "length sfx > 1"
  shows "node_of (output_path d inp sfx) = (fst (node_of d), snd (node_of d) @ [base_of inp @ sfx])"
  unfolding output_path_def
proof (rule node_of_join)
  show "CHR ''/'' \<notin> set (base_of inp @ sfx)" using base_no_sep [of inp] assms by simp
  show "base_of inp @ sfx \<noteq> []" using assms by simp
  have len: "length (base_of inp @ sfx) > 1" using assms by simp
  show "base_of inp @ sfx \<noteq> ''.''"
  proof
    assume "base_of inp @ sfx = ''.''"
    then have "length (base_of inp @ sfx) = length ''.''" by (rule arg_cong)
    with len show False by simp
  qed
qed

lemma output_path_node4:
  "node_of (output_path d inp ''_AO.png'') = (fst (node_of d), snd (node_of d) @ [base_of inp @ ''_AO.png''])"
  "node_of (output_path d inp ''_Roughness.png'') = (fst (node_of d), snd (node_of d) @ [base_of inp @ ''_Roughness.png''])"
  "node_of (output_path d inp ''_Metallic.png'') = (fst (node_of d), snd (node_of d) @ [base_of inp @ ''_Metallic.png''])"
  "node_of (output_path d inp ''_Height.png'') = (fst (node_of d), snd (node_of d) @ [base_of inp @ ''_Height.png''])"
  by (rule output_path_node; simp)+

lemma output_nodes_distinct:
  "distinct [node_of (output_path d inp ''_AO.png''), node_of (output_path d inp ''_Roughness.png''),
             node_of (output_path d inp ''_Metallic.png''), node_of (output_path d inp ''_Height.png'')]"
  by (simp add: output_path_node4)

lemma join_last_component:
  assumes "CHR ''/'' \<notin> set x"
  shows "last (split_sep (os_path_join d x)) = x"
proof (cases "d = []")
  case True
  with assms show ?thesis by (simp add: join_cases split_sep_plain)
next
  case False
  show ?thesis
  proof (cases "last d = CHR ''/''")
    case True
    with False obtain d' where d': "d = d' @ ''/''"
      by (metis append_butlast_last_id)
    have "split_sep (d @ x) = split_sep d' @ [x]"
      using split_sep_append [of d' x] assms by (simp add: d' split_sep_plain)
    with True False assms show ?thesis by (simp add: join_cases)
  next
    case nl: False
    have "split_sep (d @ ''/'' @ x) = split_sep d @ [x]"
      using split_sep_append [of d x] assms by (simp add: split_sep_plain)
    with nl False assms show ?thesis by (simp add: join_cases)
  qed
qed

lemma output_path_file:
  assumes "CHR ''/'' \<notin> set sfx" "length sfx > 1"
  shows "output_path d inp sfx \<noteq> []" and "\<not> names_dir (output_path d inp sfx)"
proof -
  have nx: "CHR ''/'' \<notin> set (base_of inp @ sfx)" using base_no_sep [of inp] assms by simp
  have len: "length (base_of inp @ sfx) > 1" using assms by simp
  have l: "last (split_sep (output_path d inp sfx)) = base_of inp @ sfx"
    unfolding output_path_def by (rule join_last_component [OF nx])
  have "base_of inp @ sfx \<noteq> []" using len by auto
  moreover have "base_of inp @ sfx \<noteq> ''.''"
  proof
    assume "base_of inp @ sfx = ''.''"
    then have "length (base_of inp @ sfx) = length ''.''" by (rule arg_cong)
    with len show False by simp
  qed
  ultimately show "\<not> names_dir (output_path d inp sfx)" by (simp add: names_dir_def l)
  show "output_path d inp sfx \<noteq> []"
    unfolding output_path_def join_cases [OF nx] using assms by auto
qed

lemma save_output_succeeds:
  assumes f: "extension lib ''.png'' = Some f"
    and sfx: "sfx \<in> {''_AO.png'', ''_Roughness.png'', ''_Metallic.png'', ''_Height.png''}"
    and m: "mode ch = ''L''" and r: "readable ch"
    and dir: "is_dir fs (node_of d)"
    and w: "\<not> is_dir fs (node_of (output_path d inp sfx))"
  shows "save_grayscale lib fs ch (output_path d inp sfx)
         = Inr (fs\<lparr>files := (files fs)(node_of (output_path d inp sfx) \<mapsto> Encoded f ch)\<rparr>)"
proof -
  let ?p = "output_path d inp sfx"
  have ext: "extension lib (str_lower (snd (os_path_splitext ?p))) = Some f"
    using sfx f output_path_ext4 [of d inp] by auto
  have ne: "?p \<noteq> []" and la: "\<not> names_dir ?p"
    using sfx output_path_file [of sfx d inp] by auto
  have "node_of ?p = (fst (node_of d), snd (node_of d) @ [base_of inp @ sfx])"
    using sfx output_path_node4 [of d inp] by auto
  then have par: "is_dir fs (fst (node_of ?p), butlast (snd (node_of ?p)))"
    using dir by simp
  from Image_save_succeeds [OF ext r ne la w par] m show ?thesis
    by (simp add: save_grayscale_L)
qed

lemma save_channel:
  assumes sv: "save_grayscale lib fs ch p = Inr fs'" and m: "mode ch = ''L''"
    and ext: "str_lower (snd (os_path_splitext p)) = ''.png''"
    and f: "extension lib ''.png'' = Some f"
  shows "fs' = fs\<lparr>files := (files fs)(node_of p \<mapsto> Encoded f ch)\<rparr>"
proof -
  from sv m have "Image_save lib fs ch p = Inr fs'" by (simp add: save_grayscale_L)
  from Image_save_Inr(1) [OF this] ext f show ?thesis by auto
qed

subsection \<open>The steps of a call\<close>

lemma unpack_orm_ensure_Inl:
  assumes "ensure_output_dir fs d = Inl e"
  shows "unpack_orm lib fs inp d pn ir im ah = (Inl e, fs)" and "e = OSError"
proof -
  from assms have "(if \<not> os_path_exists fs d then os_makedirs fs d else Inr fs) = Inl e"
    by (simp add: ensure_output_dir_def)
  then show "unpack_orm lib fs inp d pn ir im ah = (Inl e, fs)"
    by (simp add: unpack_orm_def)
  from assms show "e = OSError" by (rule ensure_Inl)
qed

lemma unpack_orm_load_Inl:
  assumes "ensure_output_dir fs d = Inr fs1" and "load_image_rgb_or_rgba lib fs1 inp = Inl e"
  shows "unpack_orm lib fs inp d pn ir im ah = (Inl e, fs1)"
proof -
  from assms(1) have "(if \<not> os_path_exists fs d then os_makedirs fs d else Inr fs) = Inr fs1"
    by (simp add: ensure_output_dir_def)
  with assms(2) show ?thesis by (simp add: unpack_orm_def)
qed

lemma unpack_orm_unknown:
  assumes "ensure_output_dir fs d = Inr fs1" and "load_image_rgb_or_rgba lib fs1 inp = Inr img"
    and "map_of PRESETS pn = None"
  shows "unpack_orm lib fs inp d pn ir im ah = (Inl (ValueError (''Unknown preset: '' @ pn)), fs1)"
proof -
  from assms(1) have "(if \<not> os_path_exists fs d then os_makedirs fs d else Inr fs) = Inr fs1"
    by (simp add: ensure_output_dir_def)
  with assms(2,3) show ?thesis by (simp add: unpack_orm_def Let_def)
qed

lemma unpack_orm_channel_Inl:
  assumes "ensure_output_dir fs d = Inr fs1" and "load_image_rgb_or_rgba lib fs1 inp = Inr img"
    and "map_of PRESETS pn = Some (a, r, m)" and "channel_by_letter img a = Inl e"
  shows "unpack_orm lib fs inp d pn ir im ah = (Inl e, fs1)"
proof -
  from assms(1) have "(if \<not> os_path_exists fs d then os_makedirs fs d else Inr fs) = Inr fs1"
    by (simp add: ensure_output_dir_def)
  with assms(2,3,4) show ?thesis by (simp add: unpack_orm_def Let_def)
qed

text \<open>Once the folder is there, the image is loaded and readable with three bands
  or more, and the preset is known, what is left of a call is the saving.\<close>

lemma unpack_orm_saving:
  assumes e: "ensure_output_dir fs d = Inr fs1"
    and l: "load_image_rgb_or_rgba lib fs1 inp = Inr img"
    and p: "map_of PRESETS pn = Some (a, r, m)"
    and rd: "readable img" and len: "3 \<le> length (bands img)"
  shows "unpack_orm lib fs inp d pn ir im ah =
     (case save_grayscale lib fs1 (band_image img (bands img ! channel_index a))
             (output_path d inp ''_AO.png'') of
        Inl e \<Rightarrow> (Inl e, fs1)
      | Inr fs2 \<Rightarrow>
     (case save_grayscale lib fs2
             (band_image img (map (\<lambda>v. if ir then 255 - v else v) (bands img ! channel_index r)))
             (output_path d inp ''_Roughness.png'') of
        Inl e \<Rightarrow> (Inl e, fs2)
      | Inr fs3 \<Rightarrow>
     (case save_grayscale lib fs3
             (band_image img (map (\<lambda>v. if im then 255 - v else v) (bands img ! channel_index m)))
             (output_path d inp ''_Metallic.png'') of
        Inl e \<Rightarrow> (Inl e, fs3)
      | Inr fs4 \<Rightarrow>
     (if ah \<and> mode img = ''RGBA'' then
        (case map (band_image img) (bands img) of
           [x, y, z, al] \<Rightarrow>
             (case save_grayscale lib fs4 al (output_path d inp ''_Height.png'') of
                Inl e \<Rightarrow> (Inl e, fs4)
              | Inr fs5 \<Rightarrow>
                  (Inr (output_path d inp ''_AO.png'', output_path d inp ''_Roughness.png'',
                        output_path d inp ''_Metallic.png'',
                        Some (output_path d inp ''_Height.png'')), fs5))
         | _ \<Rightarrow> (Inl (ValueError ''wrong number of values to unpack''), fs4))
      else (Inr (output_path d inp ''_AO.png'', output_path d inp ''_Roughness.png'',
                 output_path d inp ''_Metallic.png'', None), fs4)))))"
proof -
  from e have e': "(if \<not> os_path_exists fs d then os_makedirs fs d else Inr fs) = Inr fs1"
    by (simp add: ensure_output_dir_def)
  note L = PRESETS_letters [OF p]
  have ca: "channel_by_letter img a = Inr (band_image img (bands img ! channel_index a))"
    and cr: "channel_by_letter img r = Inr (band_image img (bands img ! channel_index r))"
    and cm: "channel_by_letter img m = Inr (band_image img (bands img ! channel_index m))"
    using L len rd by (simp_all add: channel_by_letter_succeeds)
  from len have "length (bands img) \<noteq> 1" by simp
  from Image_split_bands [OF rd this]
  have sp: "Image_split img = Inr (map (band_image img) (bands img))" .
  show ?thesis
    unfolding output_path_def
    by (simp add: unpack_orm_def Let_def e' l p ca cr cm sp maybe_invert_band
        cong: sum.case_cong if_cong)
qed

lemma unpack_orm_not_readable:
  assumes e: "ensure_output_dir fs d = Inr fs1"
    and l: "load_image_rgb_or_rgba lib fs1 inp = Inr img"
    and p: "map_of PRESETS pn = Some (a, r, m)"
    and n: "\<not> (readable img \<and> 3 \<le> length (bands img))"
  shows "\<exists>e. channel_by_letter img a = Inl e \<and> unpack_orm lib fs inp d pn ir im ah = (Inl e, fs1)"
proof (cases "channel_by_letter img a")
  case (Inl x)
  with unpack_orm_channel_Inl [OF e l p Inl] show ?thesis by simp
next
  case (Inr ch)
  from channel_by_letter_Inr(2,4) [OF Inr] n show ?thesis by simp
qed

subsection \<open>A call that succeeds\<close>

lemma unpack_orm_Inr:
  assumes run: "unpack_orm lib fs inp d pn ir im ah = (Inr res, fs')"
  shows "\<exists>fs1 img a r m f.
     ensure_output_dir fs d = Inr fs1 \<and>
     load_image_rgb_or_rgba lib fs1 inp = Inr img \<and>
     map_of PRESETS pn = Some (a, r, m) \<and>
     readable img \<and> 3 \<le> length (bands img) \<and>
     (ah \<and> mode img = ''RGBA'' \<longrightarrow> length (bands img) = 4) \<and>
     extension lib ''.png'' = Some f \<and>
     res = (output_path d inp ''_AO.png'', output_path d inp ''_Roughness.png'',
            output_path d inp ''_Metallic.png'',
            if ah \<and> mode img = ''RGBA'' then Some (output_path d inp ''_Height.png'') else None) \<and>
     dirs fs' = dirs fs1 \<and>
     \<not> is_dir fs1 (node_of (output_path d inp ''_AO.png'')) \<and>
     \<not> is_dir fs1 (node_of (output_path d inp ''_Roughness.png'')) \<and>
     \<not> is_dir fs1 (node_of (output_path d inp ''_Metallic.png'')) \<and>
     (ah \<and> mode img = ''RGBA'' \<longrightarrow> \<not> is_dir fs1 (node_of (output_path d inp ''_Height.png''))) \<and>
     files fs' =
       (let written = (files fs1)
              (node_of (output_path d inp ''_AO.png'') \<mapsto>
                 Encoded f (band_image img (bands img ! channel_index a)),
               node_of (output_path d inp ''_Roughness.png'') \<mapsto>
                 Encoded f (band_image img
                   (map (\<lambda>v. if ir then 255 - v else v) (bands img ! channel_index r))),
               node_of (output_path d inp ''_Metallic.png'') \<mapsto>
                 Encoded f (band_image img
                   (map (\<lambda>v. if im then 255 - v else v) (bands img ! channel_index m))))
        in if ah \<and> mode img = ''RGBA''
           then written(node_of (output_path d inp ''_Height.png'') \<mapsto>
                  Encoded f (band_image img (bands img ! 3)))
           else written)"
proof -
  let ?pA = "output_path d inp ''_AO.png''" and ?pR = "output_path d inp ''_Roughness.png''"
  let ?pM = "output_path d inp ''_Metallic.png''" and ?pH = "output_path d inp ''_Height.png''"
  obtain fs1 where e: "ensure_output_dir fs d = Inr fs1"
    using unpack_orm_ensure_Inl(1) [of fs d _ lib inp pn ir im ah] run
    by (cases "ensure_output_dir fs d") auto
  obtain img where l: "load_image_rgb_or_rgba lib fs1 inp = Inr img"
    using unpack_orm_load_Inl [OF e, of lib inp _ pn ir im ah] run
    by (cases "load_image_rgb_or_rgba lib fs1 inp") auto
  obtain a r m where p: "map_of PRESETS pn = Some (a, r, m)"
    using unpack_orm_unknown [OF e l, of pn ir im ah] run
    by (cases "map_of PRESETS pn") auto
  have rl: "readable img \<and> 3 \<le> length (bands img)"
    using unpack_orm_not_readable [OF e l p, of ir im ah] run by auto
  then have rd: "readable img" and len: "3 \<le> length (bands img)" by simp_all
  let ?cA = "band_image img (bands img ! channel_index a)"
  let ?cR = "band_image img (map (\<lambda>v. if ir then 255 - v else v) (bands img ! channel_index r))"
  let ?cM = "band_image img (map (\<lambda>v. if im then 255 - v else v) (bands img ! channel_index m))"
  define H where "H s =
     (if ah \<and> mode img = ''RGBA'' then
        (case map (band_image img) (bands img) of
           [x, y, z, al] \<Rightarrow>
             (case save_grayscale lib s al ?pH of
                Inl e \<Rightarrow> (Inl e, s)
              | Inr fs5 \<Rightarrow> (Inr (?pA, ?pR, ?pM, Some ?pH), fs5))
         | _ \<Rightarrow> (Inl (ValueError ''wrong number of values to unpack''), s))
      else (Inr (?pA, ?pR, ?pM, None), s))" for s
  define M3 where "M3 s = (case save_grayscale lib s ?cM ?pM of
        Inl e \<Rightarrow> (Inl e, s) | Inr fs4 \<Rightarrow> H fs4)" for s
  define R2 where "R2 s = (case save_grayscale lib s ?cR ?pR of
        Inl e \<Rightarrow> (Inl e, s) | Inr fs3 \<Rightarrow> M3 fs3)" for s
  have nf: "unpack_orm lib fs inp d pn ir im ah =
      (case save_grayscale lib fs1 ?cA ?pA of Inl e \<Rightarrow> (Inl e, fs1) | Inr fs2 \<Rightarrow> R2 fs2)"
    unfolding R2_def M3_def H_def by (rule unpack_orm_saving [OF e l p rd len])
  from run nf obtain fs2 where s2: "save_grayscale lib fs1 ?cA ?pA = Inr fs2"
    and r2: "R2 fs2 = (Inr res, fs')"
    by (cases "save_grayscale lib fs1 ?cA ?pA") auto
  from r2 obtain fs3 where s3: "save_grayscale lib fs2 ?cR ?pR = Inr fs3"
    and r3: "M3 fs3 = (Inr res, fs')"
    unfolding R2_def by (cases "save_grayscale lib fs2 ?cR ?pR") auto
  from r3 obtain fs4 where s4: "save_grayscale lib fs3 ?cM ?pM = Inr fs4"
    and r4: "H fs4 = (Inr res, fs')"
    unfolding M3_def by (cases "save_grayscale lib fs3 ?cM ?pM") auto
  from s2 have "Image_save lib fs1 ?cA ?pA = Inr fs2" by (simp add: save_grayscale_L)
  from Image_save_Inr(1) [OF this] obtain f where f: "extension lib ''.png'' = Some f"
    by (auto simp: output_path_ext4)
  have fs2: "fs2 = fs1\<lparr>files := (files fs1)(node_of ?pA \<mapsto> Encoded f ?cA)\<rparr>"
    by (rule save_channel [OF s2 _ output_path_ext4(1) f]) simp
  have fs3: "fs3 = fs2\<lparr>files := (files fs2)(node_of ?pR \<mapsto> Encoded f ?cR)\<rparr>"
    by (rule save_channel [OF s3 _ output_path_ext4(2) f]) simp
  have fs4: "fs4 = fs3\<lparr>files := (files fs3)(node_of ?pM \<mapsto> Encoded f ?cM)\<rparr>"
    by (rule save_channel [OF s4 _ output_path_ext4(3) f]) simp
  have isd: "is_dir fs2 x = is_dir fs1 x" "is_dir fs3 x = is_dir fs1 x" "is_dir fs4 x = is_dir fs1 x"
    for x by (simp_all add: is_dir_def fs2 fs3 fs4)
  have w2: "\<not> is_dir fs1 (node_of ?pA)"
    using s2 by (auto simp: save_grayscale_L Image_save_def Let_def split: option.splits if_splits)
  have w3: "\<not> is_dir fs1 (node_of ?pR)"
    using s3 isd(1) by (auto simp: save_grayscale_L Image_save_def Let_def split: option.splits if_splits)
  have w4: "\<not> is_dir fs1 (node_of ?pM)"
    using s4 isd(2) by (auto simp: save_grayscale_L Image_save_def Let_def split: option.splits if_splits)
  show ?thesis
  proof (cases "ah \<and> mode img = ''RGBA''")
    case False
    with r4 have "fs' = fs4" and res: "res = (?pA, ?pR, ?pM, None)"
      by (auto simp: H_def)
    with False e l p rd len f w2 w3 w4 show ?thesis
      by (rule_tac x = fs1 in exI, rule_tac x = img in exI, rule_tac x = a in exI,
          rule_tac x = r in exI, rule_tac x = m in exI, rule_tac x = f in exI)
         (auto simp add: fs2 fs3 fs4 Let_def)
  next
    case True
    have four: "length (bands img) = 4"
    proof (rule ccontr)
      assume "length (bands img) \<noteq> 4"
      then have "H fs4 = (Inl (ValueError ''wrong number of values to unpack''), fs4)"
        using True by (auto simp: H_def split: list.splits)
      with r4 show False by simp
    qed
    then obtain b0 b1 b2 b3 where bs: "bands img = [b0, b1, b2, b3]"
      by (auto simp: length_Suc_conv numeral_eq_Suc)
    let ?cH = "band_image img (bands img ! 3)"
    from r4 True bs have s5: "save_grayscale lib fs4 ?cH ?pH = Inr fs'"
      and res: "res = (?pA, ?pR, ?pM, Some ?pH)"
      by (auto simp: H_def split: sum.splits)
    have fs5: "fs' = fs4\<lparr>files := (files fs4)(node_of ?pH \<mapsto> Encoded f ?cH)\<rparr>"
      by (rule save_channel [OF s5 _ output_path_ext4(4) f]) simp
    have w5: "\<not> is_dir fs1 (node_of ?pH)"
      using s5 isd(3) by (auto simp: save_grayscale_L Image_save_def Let_def split: option.splits if_splits)
    from True e l p rd len f w2 w3 w4 w5 four res show ?thesis
      by (rule_tac x = fs1 in exI, rule_tac x = img in exI, rule_tac x = a in exI,
          rule_tac x = r in exI, rule_tac x = m in exI, rule_tac x = f in exI)
         (auto simp add: fs2 fs3 fs4 fs5 Let_def)
  qed
qed

text \<open>The conditions under which a call returns: the output folder exists or can be
  made, the image loads and its samples can be read, the preset is registered, the
  library writes \<^verbatim>\<open>.png\<close>, and no output path is a directory.\<close>

lemma unpack_orm_succeeds:
  assumes c: "creatable fs d"
    and l0: "load_image_rgb_or_rgba lib fs inp = Inr img"
    and n: "normalized img" and rd: "readable img"
    and p: "map_of PRESETS pn = Some (a, r, m)"
    and f: "extension lib ''.png'' = Some f"
    and w: "\<not> is_dir fs (node_of (output_path d inp ''_AO.png''))"
           "\<not> is_dir fs (node_of (output_path d inp ''_Roughness.png''))"
           "\<not> is_dir fs (node_of (output_path d inp ''_Metallic.png''))"
    and wh: "ah \<and> length (bands img) = 4 \<longrightarrow>
               \<not> is_dir fs (node_of (output_path d inp ''_Height.png''))"
  shows "\<exists>fs'. unpack_orm lib fs inp d pn ir im ah =
           (Inr (output_path d inp ''_AO.png'', output_path d inp ''_Roughness.png'',
                 output_path d inp ''_Metallic.png'',
                 if ah \<and> length (bands img) = 4 then Some (output_path d inp ''_Height.png'')
                 else None),
            fs')"
proof -
  let ?pA = "output_path d inp ''_AO.png''" and ?pR = "output_path d inp ''_Roughness.png''"
  let ?pM = "output_path d inp ''_Metallic.png''" and ?pH = "output_path d inp ''_Height.png''"
  let ?fs1 = "with_dir fs d"
  note e = ensure_creatable(1) [OF c] and dir = ensure_creatable(2) [OF c]
  note l = load_after_ensure [OF l0 e]
  from n have len: "3 \<le> length (bands img)"
    and rgba: "mode img = ''RGBA'' \<longleftrightarrow> length (bands img) = 4"
    by (auto simp: normalized_def well_formed_def split: if_splits)
  have nd: "is_dir ?fs1 (node_of (output_path d inp sfx)) = is_dir fs (node_of (output_path d inp sfx))"
    if "sfx \<in> {''_AO.png'', ''_Roughness.png'', ''_Metallic.png'', ''_Height.png''}" for sfx
    using that output_path_node4 [of d inp] below_not_made [of fs d] by auto
  let ?cA = "band_image img (bands img ! channel_index a)"
  let ?cR = "band_image img (map (\<lambda>v. if ir then 255 - v else v) (bands img ! channel_index r))"
  let ?cM = "band_image img (map (\<lambda>v. if im then 255 - v else v) (bands img ! channel_index m))"
  let ?cH = "band_image img (bands img ! 3)"
  define fs2 where "fs2 = ?fs1\<lparr>files := (files ?fs1)(node_of ?pA \<mapsto> Encoded f ?cA)\<rparr>"
  define fs3 where "fs3 = fs2\<lparr>files := (files fs2)(node_of ?pR \<mapsto> Encoded f ?cR)\<rparr>"
  define fs4 where "fs4 = fs3\<lparr>files := (files fs3)(node_of ?pM \<mapsto> Encoded f ?cM)\<rparr>"
  define fs5 where "fs5 = fs4\<lparr>files := (files fs4)(node_of ?pH \<mapsto> Encoded f ?cH)\<rparr>"
  have isd: "\<And>x. is_dir fs2 x = is_dir ?fs1 x" "\<And>x. is_dir fs3 x = is_dir ?fs1 x"
    "\<And>x. is_dir fs4 x = is_dir ?fs1 x"
    by (simp_all add: is_dir_def fs2_def fs3_def fs4_def)
  have s2: "save_grayscale lib ?fs1 ?cA ?pA = Inr fs2"
    unfolding fs2_def by (rule save_output_succeeds [OF f _ _ _ dir]) (simp_all add: nd w)
  have s3: "save_grayscale lib fs2 ?cR ?pR = Inr fs3"
    unfolding fs3_def by (rule save_output_succeeds [OF f]) (simp_all add: isd dir nd w)
  have s4: "save_grayscale lib fs3 ?cM ?pM = Inr fs4"
    unfolding fs4_def by (rule save_output_succeeds [OF f]) (simp_all add: isd dir nd w)
  note nf = unpack_orm_saving [OF e l p rd len, where ir = ir and im = im and ah = ah]
  show ?thesis
  proof (cases "ah \<and> length (bands img) = 4")
    case False
    with rgba have nc: "(ah \<and> mode img = ''RGBA'') = False" by simp
    have "unpack_orm lib fs inp d pn ir im ah = (Inr (?pA, ?pR, ?pM, None), fs4)"
      by (simp only: nf s2 s3 s4 sum.case nc if_False)
    with False show ?thesis by auto
  next
    case True
    with rgba have c: "ah \<and> mode img = ''RGBA''" by simp
    from True obtain b0 b1 b2 b3 where bs: "bands img = [b0, b1, b2, b3]"
      by (auto simp: length_Suc_conv numeral_eq_Suc)
    have s5: "save_grayscale lib fs4 ?cH ?pH = Inr fs5"
      unfolding fs5_def by (rule save_output_succeeds [OF f]) (use True wh in \<open>simp_all add: isd dir nd\<close>)
    then have s5': "save_grayscale lib fs4 (band_image img b3) ?pH = Inr fs5" by (simp add: bs)
    from c have yc: "(ah \<and> mode img = ''RGBA'') = True" by simp
    have "unpack_orm lib fs inp d pn ir im ah =
        (case map (band_image img) (bands img) of
           [x, y, z, al] \<Rightarrow>
             (case save_grayscale lib fs4 al ?pH of
                Inl e \<Rightarrow> (Inl e, fs4)
              | Inr fs5 \<Rightarrow> (Inr (?pA, ?pR, ?pM, Some ?pH), fs5))
         | _ \<Rightarrow> (Inl (ValueError ''wrong number of values to unpack''), fs4))"
      by (simp only: nf s2 s3 s4 sum.case yc if_True)
    also have "\<dots> = (Inr (?pA, ?pR, ?pM, Some ?pH), fs5)"
      by (simp add: bs s5')
    finally have "unpack_orm lib fs inp d pn ir im ah = (Inr (?pA, ?pR, ?pM, Some ?pH), fs5)" .
    with True show ?thesis by auto
  qed
qed

subsection \<open>Re-reading the outputs\<close>

lemma unpack_orm_reread:
  assumes run: "unpack_orm lib fs inp d pn ir im ah = (Inr (pa, pr, pm, h), fs')"
    and img: "load_image_rgb_or_rgba lib fs inp = Inr img"
    and p: "map_of PRESETS pn = Some (a, r, m)"
  shows "Image_open fs' pa = Inr (band_image img (bands img ! channel_index a))"
    and "Image_open fs' pr = Inr (band_image img
           (map (\<lambda>v. if ir then 255 - v else v) (bands img ! channel_index r)))"
    and "Image_open fs' pm = Inr (band_image img
           (map (\<lambda>v. if im then 255 - v else v) (bands img ! channel_index m)))"
    and "h = (if ah \<and> mode img = ''RGBA'' then Some (output_path d inp ''_Height.png'') else None)"
    and "h \<noteq> None \<Longrightarrow> Image_open fs' (the h) = Inr (band_image img (bands img ! 3))
                      \<and> length (bands img) = 4"
    and "3 \<le> length (bands img)" and "readable img"
    and "h = None \<Longrightarrow> files fs' (node_of (output_path d inp ''_Height.png''))
                       = files fs (node_of (output_path d inp ''_Height.png''))"
    and "pa = output_path d inp ''_AO.png''" "pr = output_path d inp ''_Roughness.png''"
      "pm = output_path d inp ''_Metallic.png''"
proof -
  let ?pA = "output_path d inp ''_AO.png''" and ?pR = "output_path d inp ''_Roughness.png''"
  let ?pM = "output_path d inp ''_Metallic.png''" and ?pH = "output_path d inp ''_Height.png''"
  from unpack_orm_Inr [OF run] obtain fs1 img' a' r' m' f where
    e: "ensure_output_dir fs d = Inr fs1"
    and l: "load_image_rgb_or_rgba lib fs1 inp = Inr img'"
    and p': "map_of PRESETS pn = Some (a', r', m')"
    and rd: "readable img'"
    and len: "3 \<le> length (bands img')"
    and four: "ah \<and> mode img' = ''RGBA'' \<longrightarrow> length (bands img') = 4"
    and res: "(pa, pr, pm, h) = (?pA, ?pR, ?pM,
            if ah \<and> mode img' = ''RGBA'' then Some ?pH else None)"
    and ds: "dirs fs' = dirs fs1"
    and w: "\<not> is_dir fs1 (node_of ?pA)" "\<not> is_dir fs1 (node_of ?pR)" "\<not> is_dir fs1 (node_of ?pM)"
      "ah \<and> mode img' = ''RGBA'' \<longrightarrow> \<not> is_dir fs1 (node_of ?pH)"
    and fl: "files fs' =
       (let written = (files fs1)
              (node_of ?pA \<mapsto> Encoded f (band_image img' (bands img' ! channel_index a')),
               node_of ?pR \<mapsto> Encoded f (band_image img'
                   (map (\<lambda>v. if ir then 255 - v else v) (bands img' ! channel_index r'))),
               node_of ?pM \<mapsto> Encoded f (band_image img'
                   (map (\<lambda>v. if im then 255 - v else v) (bands img' ! channel_index m'))))
        in if ah \<and> mode img' = ''RGBA''
           then written(node_of ?pH \<mapsto> Encoded f (band_image img' (bands img' ! 3)))
           else written)"
    by blast
  from load_after_ensure [OF img e] l have same: "img' = img" by simp
  from p p' have letters: "a' = a" "r' = r" "m' = m" by simp_all
  from res show paths: "pa = ?pA" "pr = ?pR" "pm = ?pM"
    and h: "h = (if ah \<and> mode img = ''RGBA'' then Some ?pH else None)"
    by (simp_all add: same)
  note dn = output_nodes_distinct [of d inp]
  have isd: "is_dir fs' x = is_dir fs1 x" for x by (simp add: is_dir_def ds)
  have t: "?pA \<noteq> []" "\<not> names_dir ?pA" "?pR \<noteq> []" "\<not> names_dir ?pR"
    "?pM \<noteq> []" "\<not> names_dir ?pM" "?pH \<noteq> []" "\<not> names_dir ?pH"
    using output_path_file [of _ d inp] by simp_all
  have fa: "files fs' (node_of ?pA) = Some (Encoded f (band_image img (bands img ! channel_index a)))"
    using dn by (auto simp: fl same letters Let_def)
  have fr: "files fs' (node_of ?pR) = Some (Encoded f (band_image img
           (map (\<lambda>v. if ir then 255 - v else v) (bands img ! channel_index r))))"
    using dn by (auto simp: fl same letters Let_def)
  have fm: "files fs' (node_of ?pM) = Some (Encoded f (band_image img
           (map (\<lambda>v. if im then 255 - v else v) (bands img ! channel_index m))))"
    using dn by (auto simp: fl same letters Let_def)
  show "Image_open fs' pa = Inr (band_image img (bands img ! channel_index a))"
    unfolding paths by (rule Image_open_file [OF fa refl t(1,2)]) (simp add: isd w)
  show "Image_open fs' pr = Inr (band_image img
           (map (\<lambda>v. if ir then 255 - v else v) (bands img ! channel_index r)))"
    unfolding paths by (rule Image_open_file [OF fr refl t(3,4)]) (simp add: isd w)
  show "Image_open fs' pm = Inr (band_image img
           (map (\<lambda>v. if im then 255 - v else v) (bands img ! channel_index m)))"
    unfolding paths by (rule Image_open_file [OF fm refl t(5,6)]) (simp add: isd w)
  show "3 \<le> length (bands img)" using len same by simp
  show "readable img" using rd same by simp
  {
    assume "h = None"
    with h have c: "\<not> (ah \<and> mode img = ''RGBA'')" by (auto split: if_splits)
    have "files fs' (node_of ?pH) = files fs1 (node_of ?pH)"
      using dn c by (auto simp: fl same Let_def)
    with ensure_Inr(1) [OF e] show "files fs' (node_of ?pH) = files fs (node_of ?pH)"
      by (simp add: with_dir_def)
  }
  assume "h \<noteq> None"
  with h have c: "ah \<and> mode img = ''RGBA''" and hp: "h = Some ?pH"
    by (auto split: if_splits)
  have fh: "files fs' (node_of ?pH) = Some (Encoded f (band_image img (bands img ! 3)))"
    using c by (simp add: fl same Let_def)
  have "Image_open fs' ?pH = Inr (band_image img (bands img ! 3))"
    by (rule Image_open_file [OF fh refl t(7,8)]) (use c w same in \<open>simp add: isd\<close>)
  with four c same hp
  show "Image_open fs' (the h) = Inr (band_image img (bands img ! 3)) \<and> length (bands img) = 4"
    by simp
qed

subsection \<open>The file system after a call\<close>



subsection \<open>Two calls that differ in the invert flags\<close>

lemma agree_outside_refl [simp]: "agree_outside N s s"
  by (simp add: agree_outside_def)

lemma save_agree:
  assumes a: "agree_outside N s t" and m: "mode ch = ''L''" "mode ch' = ''L''"
    and rd: "readable ch" "readable ch'"
    and c: "ch = ch' \<or> node_of p \<in> N"
  shows "rel_sum (=) (agree_outside N) (save_grayscale lib s ch p) (save_grayscale lib t ch' p)"
proof -
  from a have d: "is_dir s x = is_dir t x" for x
    by (simp add: agree_outside_def is_dir_def)
  show ?thesis
    using a c rd unfolding save_grayscale_L [OF m(1)] save_grayscale_L [OF m(2)]
    by (auto simp: Image_save_def Let_def d agree_outside_def split: option.splits)
qed

lemma unpack_orm_agree:
  "fst (unpack_orm lib fs inp d pn ir im ah) = fst (unpack_orm lib fs inp d pn ir' im' ah)
   \<and> agree_outside {node_of (output_path d inp ''_Roughness.png''),
                     node_of (output_path d inp ''_Metallic.png'')}
        (snd (unpack_orm lib fs inp d pn ir im ah)) (snd (unpack_orm lib fs inp d pn ir' im' ah))"
proof (cases "ensure_output_dir fs d")
  case (Inl e)
  from unpack_orm_ensure_Inl(1) [OF Inl] show ?thesis by simp
next
  case (Inr fs1)
  note e = Inr
  let ?pA = "output_path d inp ''_AO.png''" and ?pR = "output_path d inp ''_Roughness.png''"
  let ?pM = "output_path d inp ''_Metallic.png''" and ?pH = "output_path d inp ''_Height.png''"
  let ?N = "{node_of ?pR, node_of ?pM}"
  show ?thesis
  proof (cases "load_image_rgb_or_rgba lib fs1 inp")
    case (Inl x)
    from unpack_orm_load_Inl [OF e Inl] show ?thesis by simp
  next
    case (Inr img)
    note l = Inr
    show ?thesis
    proof (cases "map_of PRESETS pn")
      case None
      from unpack_orm_unknown [OF e l None] show ?thesis by simp
    next
      case (Some t)
      then obtain a r m where p: "map_of PRESETS pn = Some (a, r, m)" by (cases t) auto
      show ?thesis
      proof (cases "readable img \<and> 3 \<le> length (bands img)")
        case False
        from unpack_orm_not_readable [OF e l p False, of ir im ah]
          unpack_orm_not_readable [OF e l p False, of ir' im' ah]
        show ?thesis by auto
      next
        case True
        then have rd: "readable img" and len: "3 \<le> length (bands img)" by simp_all
        let ?cA = "band_image img (bands img ! channel_index a)"
        define cR where "cR x = band_image img
            (map (\<lambda>v. if x then 255 - v else v) (bands img ! channel_index r))" for x :: bool
        define cM where "cM x = band_image img
            (map (\<lambda>v. if x then 255 - v else v) (bands img ! channel_index m))" for x :: bool
        define H where "H s =
           (if ah \<and> mode img = ''RGBA'' then
              (case map (band_image img) (bands img) of
                 [x, y, z, al] \<Rightarrow>
                   (case save_grayscale lib s al ?pH of
                      Inl e \<Rightarrow> (Inl e, s)
                    | Inr fs5 \<Rightarrow> (Inr (?pA, ?pR, ?pM, Some ?pH), fs5))
               | _ \<Rightarrow> (Inl (ValueError ''wrong number of values to unpack''), s))
            else (Inr (?pA, ?pR, ?pM, None), s))" for s
        have run: "unpack_orm lib fs inp d pn x y ah =
           (case save_grayscale lib fs1 ?cA ?pA of
              Inl e \<Rightarrow> (Inl e, fs1)
            | Inr fs2 \<Rightarrow>
               (case save_grayscale lib fs2 (cR x) ?pR of
                  Inl e \<Rightarrow> (Inl e, fs2)
                | Inr fs3 \<Rightarrow>
                   (case save_grayscale lib fs3 (cM y) ?pM of
                      Inl e \<Rightarrow> (Inl e, fs3)
                    | Inr fs4 \<Rightarrow> H fs4)))" for x y
          unfolding H_def cR_def cM_def by (rule unpack_orm_saving [OF e l p rd len])
        have mR: "mode (cR x) = ''L''" "readable (cR x)" and mM: "mode (cM x) = ''L''" "readable (cM x)"
          for x by (simp_all add: cR_def cM_def)
        have HH: "fst (H s) = fst (H t) \<and> agree_outside ?N (snd (H s)) (snd (H t))"
          if st: "agree_outside ?N s t" for s t
        proof (cases "ah \<and> mode img = ''RGBA''")
          case False
          with st show ?thesis by (auto simp: H_def)
        next
          case yes: True
          show ?thesis
          proof (cases "length (bands img) = 4")
            case False
            then have "H u = (Inl (ValueError ''wrong number of values to unpack''), u)" for u
              using yes by (auto simp: H_def split: list.splits)
            with st show ?thesis by simp
          next
            case True
            then obtain b0 b1 b2 b3 where bs: "bands img = [b0, b1, b2, b3]"
              by (auto simp: length_Suc_conv numeral_eq_Suc)
            let ?al = "band_image img b3"
            have Hu: "H u = (case save_grayscale lib u ?al ?pH of
                     Inl e \<Rightarrow> (Inl e, u)
                   | Inr s' \<Rightarrow> (Inr (?pA, ?pR, ?pM, Some ?pH), s'))" for u
              using yes by (simp add: H_def bs)
            have "rel_sum (=) (agree_outside ?N) (save_grayscale lib s ?al ?pH)
                    (save_grayscale lib t ?al ?pH)"
              by (rule save_agree [OF st]) simp_all
            with st show ?thesis
              unfolding Hu
              by (cases "save_grayscale lib s ?al ?pH"; cases "save_grayscale lib t ?al ?pH") auto
          qed
        qed
        show ?thesis
        proof (cases "save_grayscale lib fs1 ?cA ?pA")
          case (Inl x)
          then show ?thesis by (simp add: run)
        next
          case (Inr fs2)
          note s2 = Inr
          have r3: "rel_sum (=) (agree_outside ?N)
              (save_grayscale lib fs2 (cR ir) ?pR) (save_grayscale lib fs2 (cR ir') ?pR)"
            by (rule save_agree) (simp_all add: mR)
          show ?thesis
          proof (cases "save_grayscale lib fs2 (cR ir) ?pR")
            case (Inl x)
            with r3 show ?thesis
              by (cases "save_grayscale lib fs2 (cR ir') ?pR") (auto simp: run s2)
          next
            case (Inr fs3)
            note s3 = Inr
            with r3 obtain fs3' where s3': "save_grayscale lib fs2 (cR ir') ?pR = Inr fs3'"
              and a3: "agree_outside ?N fs3 fs3'"
              by (cases "save_grayscale lib fs2 (cR ir') ?pR") auto
            have r4: "rel_sum (=) (agree_outside ?N)
              (save_grayscale lib fs3 (cM im) ?pM) (save_grayscale lib fs3' (cM im') ?pM)"
              by (rule save_agree [OF a3]) (simp_all add: mM)
            show ?thesis
            proof (cases "save_grayscale lib fs3 (cM im) ?pM")
              case (Inl x)
              with r4 a3 show ?thesis
                by (cases "save_grayscale lib fs3' (cM im') ?pM") (auto simp: run s2 s3 s3')
            next
              case (Inr fs4)
              with r4 obtain fs4' where s4': "save_grayscale lib fs3' (cM im') ?pM = Inr fs4'"
                and a4: "agree_outside ?N fs4 fs4'"
                by (cases "save_grayscale lib fs3' (cM im') ?pM") auto
              from HH [OF a4] show ?thesis
                by (simp add: run s2 s3 s3' Inr s4')
            qed
          qed
        qed
      qed
    qed
  qed
qed

subsection \<open>The example, evaluated\<close>

lemma ex_basename: "os_path_basename ''in/tex.png'' = ''tex.png''"
  by (simp add: os_path_basename_def Let_def)

lemma ex_splitext: "os_path_splitext ''tex.png'' = (''tex'', ''.png'')"
  by (simp add: os_path_splitext_def Let_def skip_dots.simps)

lemma ex_output_paths:
  "output_path ''out'' ''in/tex.png'' ''_AO.png'' = ''out/tex_AO.png''"
  "output_path ''out'' ''in/tex.png'' ''_Roughness.png'' = ''out/tex_Roughness.png''"
  "output_path ''out'' ''in/tex.png'' ''_Metallic.png'' = ''out/tex_Metallic.png''"
  "output_path ''out'' ''in/tex.png'' ''_Height.png'' = ''out/tex_Height.png''"
  by (simp_all add: output_path_def ex_basename ex_splitext os_path_join_def)

lemma ex_nodes:
  "node_of ''out'' = (False, [''out''])"
  "node_of ''in/tex.png'' = (False, [''in'', ''tex.png''])"
  "node_of ''in/pal.png'' = (False, [''in'', ''pal.png''])"
  "node_of ''in/missing.png'' = (False, [''in'', ''missing.png''])"
  by (simp_all add: node_of_def)

lemma ex_names:
  "\<not> names_dir ''out''" "\<not> names_dir ''in/tex.png''" "\<not> names_dir ''in/pal.png''"
  "\<not> names_dir ''in/missing.png''"
  by (simp_all add: names_dir_def)

lemma ex_absent: "\<not> os_path_exists ex_fs ''out''"
  by (simp add: os_path_exists_def is_dir_def is_file_def ex_nodes ex_fs_def)

lemma ex_creatable: "creatable ex_fs ''out''"
  by (simp add: creatable_def ex_nodes is_file_def is_dir_def ex_fs_def)

lemma ex_with_dir: "with_dir ex_fs ''out'' = ex_fs\<lparr>dirs := {(False, [''out'']), (False, [''in''])}\<rparr>"
  by (simp add: with_dir_def ex_absent ex_nodes) (simp add: ex_fs_def)

lemma ex_ensure:
  "ensure_output_dir ex_fs ''out'' = Inr (ex_fs\<lparr>dirs := {(False, [''out'']), (False, [''in''])}\<rparr>)"
  using ensure_creatable(1) [OF ex_creatable] by (simp add: ex_with_dir)

lemma ex_load0: "load_image_rgb_or_rgba lib ex_fs ''in/tex.png'' = Inr ex_img"
  by (simp add: load_image_rgb_or_rgba_def Image_open_def ex_names ex_nodes is_dir_def ex_fs_def
      ex_img_def)

lemma ex_load:
  "load_image_rgb_or_rgba lib (ex_fs\<lparr>dirs := {(False, [''out'']), (False, [''in''])}\<rparr>) ''in/tex.png''
     = Inr ex_img"
  using load_after_ensure [OF ex_load0 ex_ensure] .

lemma ex_normalized: "normalized ex_img"
  by (simp add: normalized_def well_formed_def ex_img_def)

lemma ex_readable: "readable ex_img"
  by (simp add: ex_img_def)

lemma ex_bands: "length (bands ex_img) = 4"
  by (simp add: ex_img_def)

lemma ex_outputs_free:
  "\<not> is_dir ex_fs (node_of (output_path ''out'' ''in/tex.png'' ''_AO.png''))"
  "\<not> is_dir ex_fs (node_of (output_path ''out'' ''in/tex.png'' ''_Roughness.png''))"
  "\<not> is_dir ex_fs (node_of (output_path ''out'' ''in/tex.png'' ''_Metallic.png''))"
  "\<not> is_dir ex_fs (node_of (output_path ''out'' ''in/tex.png'' ''_Height.png''))"
  by (simp_all add: ex_output_paths is_dir_def node_of_def ex_fs_def)

lemma ex_png: "extension ex_lib ''.png'' = Some ''PNG''"
  by (simp add: ex_lib_def)

lemma ex_unpack_succeeds:
  assumes p: "map_of PRESETS pn = Some (a, r, m)"
  shows "\<exists>fs'. unpack_orm ex_lib ex_fs ''in/tex.png'' ''out'' pn ir im ah =
           (Inr (''out/tex_AO.png'', ''out/tex_Roughness.png'', ''out/tex_Metallic.png'',
                 if ah then Some ''out/tex_Height.png'' else None), fs')"
proof -
  have wh: "ah \<and> length (bands ex_img) = 4 \<longrightarrow>
      \<not> is_dir ex_fs (node_of (output_path ''out'' ''in/tex.png'' ''_Height.png''))"
    using ex_outputs_free(4) by simp
  from unpack_orm_succeeds [OF ex_creatable ex_load0 ex_normalized ex_readable p ex_png
      ex_outputs_free(1,2,3) wh, where ir = ir and im = im]
  show ?thesis by (cases ah) (simp_all add: ex_output_paths ex_bands)
qed

lemma ex_unknown_preset:
  "unpack_orm ex_lib ex_fs ''in/tex.png'' ''out'' ''nope'' ir im ah
     = (Inl (ValueError ''Unknown preset: nope''),
        ex_fs\<lparr>dirs := {(False, [''out'']), (False, [''in''])}\<rparr>)"
  using unpack_orm_unknown [OF ex_ensure ex_load, of "''nope''" ex_lib ir im ah]
  by (simp add: PRESETS_def)

lemma ex_missing_input:
  "unpack_orm ex_lib ex_fs ''in/missing.png'' ''out'' ''nope'' ir im ah
     = (Inl DecodeError, ex_fs\<lparr>dirs := {(False, [''out'']), (False, [''in''])}\<rparr>)"
proof -
  have "load_image_rgb_or_rgba ex_lib
      (ex_fs\<lparr>dirs := {(False, [''out'']), (False, [''in''])}\<rparr>) ''in/missing.png'' = Inl DecodeError"
    by (simp add: load_image_rgb_or_rgba_def Image_open_def is_dir_def ex_nodes ex_names ex_fs_def)
  from unpack_orm_load_Inl [OF ex_ensure this] show ?thesis .
qed

lemma ex_conv_ok: "convert_ok ex_conv"
  by (auto simp: convert_ok_def ex_conv_def well_formed_def list_all_length)

lemma ex_open_pal: "Image_open ex_fs ''in/pal.png'' = Inr ex_pal"
  by (simp add: Image_open_def is_dir_def ex_nodes ex_names ex_fs_def)




section \<open>Properties\<close>

subsection \<open>The preset registry\<close>

text \<open>
  C7, counterexample. The registry has no entry named \<^verbatim>\<open>ORM\<close>: the keys of
  \<^verbatim>\<open>PRESETS\<close> are the long labels, and \<^verbatim>\<open>unpack_orm\<close> called with the preset name
  \<^verbatim>\<open>ORM\<close> on the example texture raises the unknown-preset error.
\<close>

theorem PRESETS_short_name_counterexample:
  "map_of PRESETS ''ORM'' \<noteq> Some (''R'', ''G'', ''B'')
   \<and> fst (unpack_orm ex_lib ex_fs ''in/tex.png'' ''out'' ''ORM'' False False False)
       = Inl (ValueError ''Unknown preset: ORM'')"
proof -
  have u: "map_of PRESETS ''ORM'' = None" by (simp add: PRESETS_def)
  from unpack_orm_unknown [OF ex_ensure ex_load u, where lib = ex_lib and ir = False
      and im = False and ah = False] u
  show ?thesis by simp
qed

text \<open>
  C7, as amended. The registry has exactly three entries, in this order, whose names
  are the labels \<^verbatim>\<open>ORM (R=AO, G=Roughness, B=Metallic)\<close>,
  \<^verbatim>\<open>MRA (R=Metallic, G=Roughness, B=AO)\<close> and \<^verbatim>\<open>RMA (R=Roughness, G=Metallic, B=AO)\<close>;
  they map to the (AO, Roughness, Metallic) sources (R, G, B), (B, G, R) and
  (B, R, G); the default preset name is the first key, the ORM entry.
\<close>

theorem PRESETS_registry:
  "map fst PRESETS =
     [''ORM (R=AO, G=Roughness, B=Metallic)'',
      ''MRA (R=Metallic, G=Roughness, B=AO)'',
      ''RMA (R=Roughness, G=Metallic, B=AO)'']
   \<and> map_of PRESETS ''ORM (R=AO, G=Roughness, B=Metallic)'' = Some (''R'', ''G'', ''B'')
   \<and> map_of PRESETS ''MRA (R=Metallic, G=Roughness, B=AO)'' = Some (''B'', ''G'', ''R'')
   \<and> map_of PRESETS ''RMA (R=Roughness, G=Metallic, B=AO)'' = Some (''B'', ''R'', ''G'')
   \<and> default_preset_name = fst (hd PRESETS)
   \<and> map_of PRESETS default_preset_name = Some (''R'', ''G'', ''B'')"
  by (simp add: PRESETS_def default_preset_name_def)

subsection \<open>The normalizer\<close>

text \<open>
  C5. For a file that \<^verbatim>\<open>Image.open\<close> decodes to the image \<open>raw\<close>, with a library whose
  conversions keep their contract: the normalizer converts a palette (\<^verbatim>\<open>P\<close>) or
  luminance-alpha (\<^verbatim>\<open>LA\<close>) image to \<^verbatim>\<open>RGBA\<close>, returns an \<^verbatim>\<open>RGB\<close> or \<^verbatim>\<open>RGBA\<close> image
  unchanged, and converts every other mode to \<^verbatim>\<open>RGB\<close>; whatever it returns has
  the mode \<^verbatim>\<open>RGB\<close> with three bands or \<^verbatim>\<open>RGBA\<close> with four, of 8-bit samples (the
  type \<open>byte\<close>).
\<close>

theorem load_image_normalizes:
  assumes ok: "convert_ok lib" and op: "Image_open fs path = Inr raw" and wf: "well_formed raw"
  shows "load_image_rgb_or_rgba lib fs path =
           (if mode raw \<in> {''P'', ''LA''} then convert lib raw ''RGBA''
            else if mode raw \<in> {''RGB'', ''RGBA''} then Inr raw
            else convert lib raw ''RGB'')
         \<and> (\<forall>img. load_image_rgb_or_rgba lib fs path = Inr img \<longrightarrow>
               mode img \<in> {''RGB'', ''RGBA''}
               \<and> length (bands img) = (if mode img = ''RGBA'' then 4 else 3)
               \<and> well_formed img \<and> dims img = dims raw)"
proof (intro conjI allI impI)
  show eq: "load_image_rgb_or_rgba lib fs path =
           (if mode raw \<in> {''P'', ''LA''} then convert lib raw ''RGBA''
            else if mode raw \<in> {''RGB'', ''RGBA''} then Inr raw
            else convert lib raw ''RGB'')"
    by (rule load_image_cases [OF ok op])
  fix img assume res: "load_image_rgb_or_rgba lib fs path = Inr img"
  have *: "mode img \<in> {''RGB'', ''RGBA''} \<and> well_formed img \<and> dims img = dims raw"
    using res ok wf unfolding eq convert_ok_def
    by (auto split: if_splits)
  then show "mode img \<in> {''RGB'', ''RGBA''}" "well_formed img" "dims img = dims raw" by simp_all
  from * show "length (bands img) = (if mode img = ''RGBA'' then 4 else 3)"
    by (auto simp: well_formed_def)
qed

text \<open>The palette image of the example, normalized by a converting library.\<close>

theorem load_image_normalizes_witness:
  "convert_ok ex_conv \<and> Image_open ex_fs ''in/pal.png'' = Inr ex_pal \<and> well_formed ex_pal
   \<and> load_image_rgb_or_rgba ex_conv ex_fs ''in/pal.png''
       = Inr \<lparr>mode = ''RGBA'', dims = (1, 1), bands = [[0], [0], [0], [0]], readable = True\<rparr>
   \<and> load_image_rgb_or_rgba ex_conv ex_fs ''in/pal.png'' = convert ex_conv ex_pal ''RGBA''"
proof -
  have wf: "well_formed ex_pal" by (simp add: well_formed_def ex_pal_def)
  from load_image_normalizes [OF ex_conv_ok ex_open_pal wf]
  have "load_image_rgb_or_rgba ex_conv ex_fs ''in/pal.png'' = convert ex_conv ex_pal ''RGBA''"
    by (simp add: ex_pal_def)
  moreover have "convert ex_conv ex_pal ''RGBA''
       = Inr \<lparr>mode = ''RGBA'', dims = (1, 1), bands = [[0], [0], [0], [0]], readable = True\<rparr>"
    by (simp add: ex_conv_def ex_pal_def numeral_eq_Suc)
  ultimately show ?thesis using ex_conv_ok ex_open_pal wf by simp
qed

subsection \<open>The three channel outputs\<close>

text \<open>Inversion on bytes is the subtraction from 255 on numbers.\<close>

lemma maybe_invert_samples:
  "map (map unat) (bands (band_image img (map (\<lambda>v. 255 - v) b))) = [map (\<lambda>v. 255 - unat v) b]"
proof -
  have "unat (255 - v) = 255 - unat v" for v :: byte
  proof -
    have "unat v \<le> 255" using unsigned_less [of v, where 'a = nat] by simp
    then have "v \<le> 255" by (simp add: word_le_nat_alt)
    then show ?thesis by (simp add: unat_sub)
  qed
  then show ?thesis by simp
qed

text \<open>
  C1. Let \<open>img\<close> be the normalized input image and let the preset name the letters
  \<open>ao_from\<close>, \<open>rough_from\<close>, \<open>metal_from\<close>.

  \<^item> The call returns: when the output folder exists or can be made, the samples of
    the image can be read, the library writes \<^verbatim>\<open>.png\<close> files and no output path is a
    directory, \<^verbatim>\<open>unpack_orm\<close> returns the paths with the suffixes \<^verbatim>\<open>_AO.png\<close>,
    \<^verbatim>\<open>_Roughness.png\<close>, \<^verbatim>\<open>_Metallic.png\<close> (and the height path exactly when it is
    asked for and the image has four bands), for every registered preset and every
    setting of the invert flags.
  \<^item> Whenever it returns, re-reading each of the AO, Roughness and Metallic files gives
    a single-channel image (mode \<^verbatim>\<open>L\<close>, one band of bytes, the size of the input)
    whose samples are those of the band of \<open>img\<close> with the index of the letter (R is
    0, G is 1, B is 2, an index below the number of bands), each sample \<open>v\<close> replaced
    by \<open>255 - v\<close> when the invert flag of Roughness, respectively Metallic, is set; AO
    is never inverted.
\<close>

theorem unpack_orm_channel_outputs:
  assumes img: "load_image_rgb_or_rgba lib fs input_path = Inr img"
    and preset: "map_of PRESETS preset_name = Some (ao_from, rough_from, metal_from)"
  shows "(creatable fs output_dir \<and> normalized img \<and> readable img
          \<and> extension lib ''.png'' \<noteq> None
          \<and> \<not> is_dir fs (node_of (output_path output_dir input_path ''_AO.png''))
          \<and> \<not> is_dir fs (node_of (output_path output_dir input_path ''_Roughness.png''))
          \<and> \<not> is_dir fs (node_of (output_path output_dir input_path ''_Metallic.png''))
          \<and> (export_alpha_as_height \<and> length (bands img) = 4 \<longrightarrow>
                \<not> is_dir fs (node_of (output_path output_dir input_path ''_Height.png'')))
          \<longrightarrow> (\<exists>fs'. unpack_orm lib fs input_path output_dir preset_name
                         invert_roughness invert_metallic export_alpha_as_height
                = (Inr (output_path output_dir input_path ''_AO.png'',
                        output_path output_dir input_path ''_Roughness.png'',
                        output_path output_dir input_path ''_Metallic.png'',
                        if export_alpha_as_height \<and> length (bands img) = 4
                        then Some (output_path output_dir input_path ''_Height.png'') else None),
                   fs')))
       \<and> (\<forall>ao_path rough_path metal_path height fs'.
            unpack_orm lib fs input_path output_dir preset_name
              invert_roughness invert_metallic export_alpha_as_height
            = (Inr (ao_path, rough_path, metal_path, height), fs') \<longrightarrow>
              ao_path = output_path output_dir input_path ''_AO.png''
            \<and> rough_path = output_path output_dir input_path ''_Roughness.png''
            \<and> metal_path = output_path output_dir input_path ''_Metallic.png''
            \<and> Image_open fs' ao_path = Inr (band_image img (bands img ! channel_index ao_from))
            \<and> Image_open fs' rough_path =
                 Inr (band_image img (map (\<lambda>v. if invert_roughness then 255 - v else v)
                                        (bands img ! channel_index rough_from)))
            \<and> Image_open fs' metal_path =
                 Inr (band_image img (map (\<lambda>v. if invert_metallic then 255 - v else v)
                                        (bands img ! channel_index metal_from)))
            \<and> channel_index ao_from < length (bands img)
            \<and> channel_index rough_from < length (bands img)
            \<and> channel_index metal_from < length (bands img))"
proof (intro conjI allI impI)
  assume env: "creatable fs output_dir \<and> normalized img \<and> readable img
          \<and> extension lib ''.png'' \<noteq> None
          \<and> \<not> is_dir fs (node_of (output_path output_dir input_path ''_AO.png''))
          \<and> \<not> is_dir fs (node_of (output_path output_dir input_path ''_Roughness.png''))
          \<and> \<not> is_dir fs (node_of (output_path output_dir input_path ''_Metallic.png''))
          \<and> (export_alpha_as_height \<and> length (bands img) = 4 \<longrightarrow>
                \<not> is_dir fs (node_of (output_path output_dir input_path ''_Height.png'')))"
  then obtain f where f: "extension lib ''.png'' = Some f" by auto
  from env have c: "creatable fs output_dir" and n: "normalized img" and rd: "readable img"
    and w: "\<not> is_dir fs (node_of (output_path output_dir input_path ''_AO.png''))"
      "\<not> is_dir fs (node_of (output_path output_dir input_path ''_Roughness.png''))"
      "\<not> is_dir fs (node_of (output_path output_dir input_path ''_Metallic.png''))"
    and wh: "export_alpha_as_height \<and> length (bands img) = 4 \<longrightarrow>
                \<not> is_dir fs (node_of (output_path output_dir input_path ''_Height.png''))"
    by simp_all
  from unpack_orm_succeeds [OF c img n rd preset f w wh]
  show "\<exists>fs'. unpack_orm lib fs input_path output_dir preset_name
                         invert_roughness invert_metallic export_alpha_as_height
                = (Inr (output_path output_dir input_path ''_AO.png'',
                        output_path output_dir input_path ''_Roughness.png'',
                        output_path output_dir input_path ''_Metallic.png'',
                        if export_alpha_as_height \<and> length (bands img) = 4
                        then Some (output_path output_dir input_path ''_Height.png'') else None),
                   fs')" .
next
  fix ao_path rough_path metal_path height fs'
  assume run: "unpack_orm lib fs input_path output_dir preset_name
              invert_roughness invert_metallic export_alpha_as_height
            = (Inr (ao_path, rough_path, metal_path, height), fs')"
  note r = unpack_orm_reread [OF run img preset]
  from r(9,10,11) show "ao_path = output_path output_dir input_path ''_AO.png''"
    "rough_path = output_path output_dir input_path ''_Roughness.png''"
    "metal_path = output_path output_dir input_path ''_Metallic.png''" .
  from r(1,2,3) show "Image_open fs' ao_path = Inr (band_image img (bands img ! channel_index ao_from))"
    "Image_open fs' rough_path =
                 Inr (band_image img (map (\<lambda>v. if invert_roughness then 255 - v else v)
                                        (bands img ! channel_index rough_from)))"
    "Image_open fs' metal_path =
                 Inr (band_image img (map (\<lambda>v. if invert_metallic then 255 - v else v)
                                        (bands img ! channel_index metal_from)))" .
  have "channel_index l < 3" for l by (simp add: channel_index_def)
  with r(6) have "channel_index l < length (bands img)" for l
    by (meson less_le_trans)
  then show "channel_index ao_from < length (bands img)"
    "channel_index rough_from < length (bands img)"
    "channel_index metal_from < length (bands img)" by simp_all
qed

text \<open>The example texture under the preset MRA with Metallic inverted: the call
  returns, AO is 30, Roughness 20 and Metallic 255 - 10 = 245 everywhere.\<close>

theorem unpack_orm_channel_outputs_witness:
  "load_image_rgb_or_rgba ex_lib ex_fs ''in/tex.png'' = Inr ex_img
   \<and> map_of PRESETS ''MRA (R=Metallic, G=Roughness, B=AO)'' = Some (''B'', ''G'', ''R'')
   \<and> creatable ex_fs ''out'' \<and> normalized ex_img \<and> readable ex_img
   \<and> extension ex_lib ''.png'' = Some ''PNG''
   \<and> fst (unpack_orm ex_lib ex_fs ''in/tex.png'' ''out'' ''MRA (R=Metallic, G=Roughness, B=AO)''
            False True False)
       = Inr (''out/tex_AO.png'', ''out/tex_Roughness.png'', ''out/tex_Metallic.png'', None)
   \<and> Image_open (snd (unpack_orm ex_lib ex_fs ''in/tex.png'' ''out''
            ''MRA (R=Metallic, G=Roughness, B=AO)'' False True False)) ''out/tex_AO.png''
       = Inr \<lparr>mode = ''L'', dims = (2, 2), bands = [[30, 30, 30, 30]], readable = True\<rparr>
   \<and> Image_open (snd (unpack_orm ex_lib ex_fs ''in/tex.png'' ''out''
            ''MRA (R=Metallic, G=Roughness, B=AO)'' False True False)) ''out/tex_Roughness.png''
       = Inr \<lparr>mode = ''L'', dims = (2, 2), bands = [[20, 20, 20, 20]], readable = True\<rparr>
   \<and> Image_open (snd (unpack_orm ex_lib ex_fs ''in/tex.png'' ''out''
            ''MRA (R=Metallic, G=Roughness, B=AO)'' False True False)) ''out/tex_Metallic.png''
       = Inr \<lparr>mode = ''L'', dims = (2, 2), bands = [[245, 245, 245, 245]], readable = True\<rparr>"
proof -
  let ?pn = "''MRA (R=Metallic, G=Roughness, B=AO)''"
  have p: "map_of PRESETS ?pn = Some (''B'', ''G'', ''R'')" by (simp add: PRESETS_def)
  note t = unpack_orm_channel_outputs [OF ex_load0 [of ex_lib] p, where output_dir = "''out''"
      and invert_roughness = False and invert_metallic = True and export_alpha_as_height = False]
  from t ex_creatable ex_normalized ex_readable ex_png ex_outputs_free
  obtain fs' where
    run: "unpack_orm ex_lib ex_fs ''in/tex.png'' ''out'' ?pn False True False
          = (Inr (''out/tex_AO.png'', ''out/tex_Roughness.png'', ''out/tex_Metallic.png'', None), fs')"
    by (auto simp: ex_output_paths)
  from t run
  have "Image_open fs' ''out/tex_AO.png'' = Inr (band_image ex_img (bands ex_img ! channel_index ''B''))"
    and "Image_open fs' ''out/tex_Roughness.png'' =
           Inr (band_image ex_img (map (\<lambda>v. if False then 255 - v else v)
                                     (bands ex_img ! channel_index ''G'')))"
    and "Image_open fs' ''out/tex_Metallic.png'' =
           Inr (band_image ex_img (map (\<lambda>v. if True then 255 - v else v)
                                     (bands ex_img ! channel_index ''R'')))"
    by blast+
  then show ?thesis
    using ex_load0 [of ex_lib] p ex_creatable ex_normalized ex_readable ex_png
    by (simp add: run band_image_def channel_index_def ex_img_def)
qed

subsection \<open>The height output\<close>

lemma unpack_orm_no_alpha:
  assumes img: "load_image_rgb_or_rgba lib fs inp = Inr img" and m: "mode img \<noteq> ''RGBA''"
  shows "unpack_orm lib fs inp d pn ir im ah = unpack_orm lib fs inp d pn ir im False"
proof (cases "ensure_output_dir fs d")
  case (Inl e)
  from unpack_orm_ensure_Inl(1) [OF Inl] show ?thesis by simp
next
  case (Inr fs1)
  note e = Inr
  note l = load_after_ensure [OF img e]
  show ?thesis
  proof (cases "map_of PRESETS pn")
    case None
    from unpack_orm_unknown [OF e l None] show ?thesis by simp
  next
    case (Some t)
    then obtain a r m where p: "map_of PRESETS pn = Some (a, r, m)" by (cases t) auto
    show ?thesis
    proof (cases "readable img \<and> 3 \<le> length (bands img)")
      case False
      from unpack_orm_not_readable [OF e l p False, of ir im ah]
        unpack_orm_not_readable [OF e l p False, of ir im False]
      show ?thesis by auto
    next
      case True
      then have rd: "readable img" and len: "3 \<le> length (bands img)" by simp_all
      from m have c: "(ah \<and> mode img = ''RGBA'') = False" "(False \<and> mode img = ''RGBA'') = False"
        by simp_all
      show ?thesis
        by (simp only: unpack_orm_saving [OF e l p rd len] c if_False)
    qed
  qed
qed

text \<open>
  C2. Let \<open>img\<close> be the normalized input image.

  \<^item> The call returns: when the output folder exists or can be made, the samples of
    the image can be read, the preset is registered, the library writes \<^verbatim>\<open>.png\<close> files
    and no output path is a directory, \<^verbatim>\<open>unpack_orm\<close> returns, and the height it
    returns is the path with the suffix \<^verbatim>\<open>_Height.png\<close> if \<^verbatim>\<open>export_alpha_as_height\<close> is
    set and the image has four bands, and is absent otherwise: no error is raised
    when the flag is set on an image without alpha.
  \<^item> Whenever it returns, the height is present if and only if the flag is set and
    the image has four bands; re-reading the height file then gives the fourth band,
    the alpha channel, sample for sample, never inverted; when the height is absent
    the height path is not written.
  \<^item> When the flag is not set or the image has no fourth band, the call is the very
    call that does not ask for the height, in its result and in its effect.
\<close>

theorem unpack_orm_height_output:
  assumes img: "load_image_rgb_or_rgba lib fs input_path = Inr img" and n: "normalized img"
  shows "(creatable fs output_dir \<and> readable img
          \<and> map_of PRESETS preset_name \<noteq> None \<and> extension lib ''.png'' \<noteq> None
          \<and> \<not> is_dir fs (node_of (output_path output_dir input_path ''_AO.png''))
          \<and> \<not> is_dir fs (node_of (output_path output_dir input_path ''_Roughness.png''))
          \<and> \<not> is_dir fs (node_of (output_path output_dir input_path ''_Metallic.png''))
          \<and> (export_alpha_as_height \<and> length (bands img) = 4 \<longrightarrow>
                \<not> is_dir fs (node_of (output_path output_dir input_path ''_Height.png'')))
          \<longrightarrow> (\<exists>fs'. unpack_orm lib fs input_path output_dir preset_name
                         invert_roughness invert_metallic export_alpha_as_height
                = (Inr (output_path output_dir input_path ''_AO.png'',
                        output_path output_dir input_path ''_Roughness.png'',
                        output_path output_dir input_path ''_Metallic.png'',
                        if export_alpha_as_height \<and> length (bands img) = 4
                        then Some (output_path output_dir input_path ''_Height.png'') else None),
                   fs')))
       \<and> (\<forall>ao_path rough_path metal_path height fs'.
            unpack_orm lib fs input_path output_dir preset_name invert_roughness invert_metallic
              export_alpha_as_height = (Inr (ao_path, rough_path, metal_path, height), fs') \<longrightarrow>
              (height \<noteq> None \<longleftrightarrow> export_alpha_as_height \<and> length (bands img) = 4)
            \<and> (\<forall>height_path. height = Some height_path \<longrightarrow>
                  height_path = output_path output_dir input_path ''_Height.png''
                  \<and> Image_open fs' height_path = Inr (band_image img (bands img ! 3)))
            \<and> (height = None \<longrightarrow>
                  files fs' (node_of (output_path output_dir input_path ''_Height.png''))
                  = files fs (node_of (output_path output_dir input_path ''_Height.png''))))
       \<and> (\<not> (export_alpha_as_height \<and> length (bands img) = 4) \<longrightarrow>
            unpack_orm lib fs input_path output_dir preset_name invert_roughness invert_metallic
              export_alpha_as_height
            = unpack_orm lib fs input_path output_dir preset_name invert_roughness invert_metallic
                False)"
proof (intro conjI allI impI)
  from n have four: "length (bands img) = 4 \<longleftrightarrow> mode img = ''RGBA''"
    by (auto simp: normalized_def well_formed_def)
  {
    assume "\<not> (export_alpha_as_height \<and> length (bands img) = 4)"
    then show "unpack_orm lib fs input_path output_dir preset_name invert_roughness invert_metallic
              export_alpha_as_height
            = unpack_orm lib fs input_path output_dir preset_name invert_roughness invert_metallic
                False"
      using unpack_orm_no_alpha [OF img] four by (cases export_alpha_as_height) auto
  }
  {
    assume env: "creatable fs output_dir \<and> readable img
          \<and> map_of PRESETS preset_name \<noteq> None \<and> extension lib ''.png'' \<noteq> None
          \<and> \<not> is_dir fs (node_of (output_path output_dir input_path ''_AO.png''))
          \<and> \<not> is_dir fs (node_of (output_path output_dir input_path ''_Roughness.png''))
          \<and> \<not> is_dir fs (node_of (output_path output_dir input_path ''_Metallic.png''))
          \<and> (export_alpha_as_height \<and> length (bands img) = 4 \<longrightarrow>
                \<not> is_dir fs (node_of (output_path output_dir input_path ''_Height.png'')))"
    then obtain f a r m where f: "extension lib ''.png'' = Some f"
      and p: "map_of PRESETS preset_name = Some (a, r, m)"
      by auto
    from env have c: "creatable fs output_dir" and rd: "readable img"
      and w: "\<not> is_dir fs (node_of (output_path output_dir input_path ''_AO.png''))"
        "\<not> is_dir fs (node_of (output_path output_dir input_path ''_Roughness.png''))"
        "\<not> is_dir fs (node_of (output_path output_dir input_path ''_Metallic.png''))"
      and wh: "export_alpha_as_height \<and> length (bands img) = 4 \<longrightarrow>
                \<not> is_dir fs (node_of (output_path output_dir input_path ''_Height.png''))"
      by simp_all
    from unpack_orm_succeeds [OF c img n rd p f w wh]
    show "\<exists>fs'. unpack_orm lib fs input_path output_dir preset_name
                         invert_roughness invert_metallic export_alpha_as_height
                = (Inr (output_path output_dir input_path ''_AO.png'',
                        output_path output_dir input_path ''_Roughness.png'',
                        output_path output_dir input_path ''_Metallic.png'',
                        if export_alpha_as_height \<and> length (bands img) = 4
                        then Some (output_path output_dir input_path ''_Height.png'') else None),
                   fs')" .
  }
  fix ao_path rough_path metal_path height fs'
  assume run: "unpack_orm lib fs input_path output_dir preset_name invert_roughness invert_metallic
              export_alpha_as_height = (Inr (ao_path, rough_path, metal_path, height), fs')"
  from unpack_orm_Inr [OF run] obtain a r m where p: "map_of PRESETS preset_name = Some (a, r, m)"
    by blast
  note rr = unpack_orm_reread [OF run img p]
  from rr(4) four show "height \<noteq> None \<longleftrightarrow> export_alpha_as_height \<and> length (bands img) = 4"
    by auto
  {
    assume "height = None"
    from rr(8) [OF this]
    show "files fs' (node_of (output_path output_dir input_path ''_Height.png''))
                  = files fs (node_of (output_path output_dir input_path ''_Height.png''))" .
  }
  fix height_path assume h: "height = Some height_path"
  with rr(4) show "height_path = output_path output_dir input_path ''_Height.png''"
    by (auto split: if_splits)
  from rr(5) h show "Image_open fs' height_path = Inr (band_image img (bands img ! 3))"
    by simp
qed

text \<open>The example texture has an alpha channel of 40 everywhere: with the flag set the
  call returns the height path and the file holds the alpha channel.\<close>

theorem unpack_orm_height_output_witness:
  "load_image_rgb_or_rgba ex_lib ex_fs ''in/tex.png'' = Inr ex_img \<and> normalized ex_img
   \<and> creatable ex_fs ''out'' \<and> readable ex_img
   \<and> map_of PRESETS default_preset_name = Some (''R'', ''G'', ''B'')
   \<and> extension ex_lib ''.png'' = Some ''PNG''
   \<and> fst (unpack_orm ex_lib ex_fs ''in/tex.png'' ''out'' default_preset_name False False True)
       = Inr (''out/tex_AO.png'', ''out/tex_Roughness.png'', ''out/tex_Metallic.png'',
              Some ''out/tex_Height.png'')
   \<and> Image_open (snd (unpack_orm ex_lib ex_fs ''in/tex.png'' ''out'' default_preset_name
                         False False True)) ''out/tex_Height.png''
       = Inr \<lparr>mode = ''L'', dims = (2, 2), bands = [[40, 40, 40, 40]], readable = True\<rparr>"
proof -
  have p: "map_of PRESETS default_preset_name = Some (''R'', ''G'', ''B'')"
    by (simp add: PRESETS_def default_preset_name_def)
  note t = unpack_orm_height_output [where lib = ex_lib and output_dir = "''out''"
      and preset_name = default_preset_name and invert_roughness = False
      and invert_metallic = False and export_alpha_as_height = True,
      OF ex_load0 ex_normalized]
  from t ex_creatable ex_readable ex_png ex_outputs_free p ex_bands
  obtain fs' where
    run: "unpack_orm ex_lib ex_fs ''in/tex.png'' ''out'' default_preset_name False False True
          = (Inr (''out/tex_AO.png'', ''out/tex_Roughness.png'', ''out/tex_Metallic.png'',
                  Some ''out/tex_Height.png''), fs')"
    by (auto simp: ex_output_paths)
  from t run
  have "Image_open fs' ''out/tex_Height.png'' = Inr (band_image ex_img (bands ex_img ! 3))"
    by blast
  then have "Image_open fs' ''out/tex_Height.png''
      = Inr \<lparr>mode = ''L'', dims = (2, 2), bands = [[40, 40, 40, 40]], readable = True\<rparr>"
    by (simp add: band_image_def ex_img_def)
  then show ?thesis
    using ex_load0 [of ex_lib] ex_normalized ex_creatable ex_readable p ex_png
    by (simp add: run)
qed

subsection \<open>The names of the output files\<close>



subsection \<open>The output folder and failing calls\<close>







subsection \<open>An unknown preset name\<close>

text \<open>
  C3, counterexample. With the preset name \<^verbatim>\<open>nope\<close>, which is not registered, the
  call on the example texture raises the unknown-preset error, and yet the
  folder \<^verbatim>\<open>out\<close>, which did not exist, is a directory afterwards: the failing call
  has created a directory. On an input that does not decode, the same preset
  name gives the decode error, not the unknown-preset error.
\<close>

theorem unknown_preset_counterexample:
  "map_of PRESETS ''nope'' = None
   \<and> fst (unpack_orm ex_lib ex_fs ''in/tex.png'' ''out'' ''nope'' False False False)
       = Inl (ValueError ''Unknown preset: nope'')
   \<and> \<not> is_dir ex_fs (node_of ''out'')
   \<and> is_dir (snd (unpack_orm ex_lib ex_fs ''in/tex.png'' ''out'' ''nope'' False False False))
        (node_of ''out'')
   \<and> fst (unpack_orm ex_lib ex_fs ''in/missing.png'' ''out'' ''nope'' False False False)
       = Inl DecodeError"
proof -
  have "\<not> is_dir ex_fs (node_of ''out'')"
    by (simp add: is_dir_def node_of_def ex_fs_def)
  moreover have "is_dir (ex_fs\<lparr>dirs := {(False, [''out'']), (False, [''in''])}\<rparr>) (node_of ''out'')"
    by (simp add: is_dir_def node_of_def)
  moreover have "map_of PRESETS ''nope'' = None"
    by (simp add: PRESETS_def)
  ultimately show ?thesis
    by (simp add: ex_unknown_preset ex_missing_input)
qed

text \<open>
  C3, as amended. For a preset name that is not in the registry, every call
  fails, and no file is written: the files of the file system are unchanged.
  The file system is either unchanged or differs by the output folder, which
  \<^verbatim>\<open>os.makedirs\<close> has created because no such path existed. The name is looked up
  after the folder is made and the image is loaded, and before any channel is
  selected, whatever the bands of the image:

  \<^item> when the folder does not exist and cannot be made, the failure is the error of
    \<^verbatim>\<open>os.makedirs\<close>, an \<^verbatim>\<open>OSError\<close>, and the file system is unchanged;
  \<^item> when the folder exists or is made and the image does not load, the failure is the
    error of the load;
  \<^item> when the folder exists or is made and the image loads, the failure is the
    \<^verbatim>\<open>ValueError\<close> with the message \<^verbatim>\<open>Unknown preset:\<close> and the name.
\<close>

theorem unknown_preset_fails:
  assumes unknown: "map_of PRESETS preset_name = None"
  shows "(\<forall>e. ensure_output_dir fs output_dir = Inl e \<longrightarrow>
            e = OSError
          \<and> unpack_orm lib fs input_path output_dir preset_name
                  invert_roughness invert_metallic export_alpha_as_height = (Inl e, fs))
       \<and> (\<forall>fs1 e. ensure_output_dir fs output_dir = Inr fs1
              \<and> load_image_rgb_or_rgba lib fs1 input_path = Inl e \<longrightarrow>
            unpack_orm lib fs input_path output_dir preset_name
                  invert_roughness invert_metallic export_alpha_as_height = (Inl e, fs1))
       \<and> (\<forall>fs1 img. ensure_output_dir fs output_dir = Inr fs1
              \<and> load_image_rgb_or_rgba lib fs1 input_path = Inr img \<longrightarrow>
            unpack_orm lib fs input_path output_dir preset_name
                  invert_roughness invert_metallic export_alpha_as_height
            = (Inl (ValueError (''Unknown preset: '' @ preset_name)), fs1))
       \<and> (\<exists>e. fst (unpack_orm lib fs input_path output_dir preset_name
                  invert_roughness invert_metallic export_alpha_as_height) = Inl e)
       \<and> files (snd (unpack_orm lib fs input_path output_dir preset_name
                  invert_roughness invert_metallic export_alpha_as_height)) = files fs
       \<and> (snd (unpack_orm lib fs input_path output_dir preset_name
                  invert_roughness invert_metallic export_alpha_as_height) = fs
          \<or> \<not> os_path_exists fs output_dir
            \<and> os_makedirs fs output_dir
                = Inr (snd (unpack_orm lib fs input_path output_dir preset_name
                  invert_roughness invert_metallic export_alpha_as_height)))"
proof -
  let ?run = "unpack_orm lib fs input_path output_dir preset_name
                  invert_roughness invert_metallic export_alpha_as_height"
  have a: "e = OSError \<and> ?run = (Inl e, fs)" if "ensure_output_dir fs output_dir = Inl e" for e
    using unpack_orm_ensure_Inl [OF that] by simp
  have b: "?run = (Inl e, fs1)"
    if "ensure_output_dir fs output_dir = Inr fs1 \<and> load_image_rgb_or_rgba lib fs1 input_path = Inl e"
    for fs1 e
    using unpack_orm_load_Inl [of fs output_dir fs1 lib input_path e] that by simp
  have c: "?run = (Inl (ValueError (''Unknown preset: '' @ preset_name)), fs1)"
    if "ensure_output_dir fs output_dir = Inr fs1 \<and> load_image_rgb_or_rgba lib fs1 input_path = Inr img"
    for fs1 img
    using unpack_orm_unknown [of fs output_dir fs1 lib input_path img, OF _ _ unknown] that by simp
  have rest: "(\<exists>e. fst ?run = Inl e) \<and> files (snd ?run) = files fs
       \<and> (snd ?run = fs \<or> \<not> os_path_exists fs output_dir \<and> os_makedirs fs output_dir = Inr (snd ?run))"
  proof (cases "ensure_output_dir fs output_dir")
    case (Inl e)
    from a [OF Inl] show ?thesis by simp
  next
    case (Inr fs1)
    have st: "files fs1 = files fs
        \<and> (fs1 = fs \<or> \<not> os_path_exists fs output_dir \<and> os_makedirs fs output_dir = Inr fs1)"
      using ensure_Inr(1,5) [OF Inr] by (cases "os_path_exists fs output_dir") (auto simp: with_dir_def)
    show ?thesis
    proof (cases "load_image_rgb_or_rgba lib fs1 input_path")
      case (Inl e)
      with b [of fs1 e] Inr st show ?thesis by simp
    next
      case (Inr img)
      with c [of fs1 img] \<open>ensure_output_dir fs output_dir = Inr fs1\<close> st show ?thesis by simp
    qed
  qed
  from a b c rest show ?thesis by blast
qed

text \<open>The example texture, and an input that does not decode, with the preset name
  \<^verbatim>\<open>nope\<close>.\<close>

theorem unknown_preset_fails_witness:
  "map_of PRESETS ''nope'' = None
   \<and> ensure_output_dir ex_fs ''out'' = Inr (ex_fs\<lparr>dirs := {(False, [''out'']), (False, [''in''])}\<rparr>)
   \<and> load_image_rgb_or_rgba ex_lib (ex_fs\<lparr>dirs := {(False, [''out'']), (False, [''in''])}\<rparr>)
        ''in/tex.png'' = Inr ex_img
   \<and> unpack_orm ex_lib ex_fs ''in/tex.png'' ''out'' ''nope'' True True True
       = (Inl (ValueError (''Unknown preset: '' @ ''nope'')),
          ex_fs\<lparr>dirs := {(False, [''out'']), (False, [''in''])}\<rparr>)
   \<and> files (snd (unpack_orm ex_lib ex_fs ''in/tex.png'' ''out'' ''nope'' True True True))
       = files ex_fs"
proof -
  have u: "map_of PRESETS ''nope'' = None" by (simp add: PRESETS_def)
  note t = unknown_preset_fails [OF u, where lib = ex_lib and fs = ex_fs
      and input_path = "''in/tex.png''" and output_dir = "''out''"
      and invert_roughness = True and invert_metallic = True and export_alpha_as_height = True]
  from t have "unpack_orm ex_lib ex_fs ''in/tex.png'' ''out'' ''nope'' True True True
       = (Inl (ValueError (''Unknown preset: '' @ ''nope'')),
          ex_fs\<lparr>dirs := {(False, [''out'']), (False, [''in''])}\<rparr>)"
    using ex_ensure ex_load [of ex_lib] by blast
  moreover from t have "files (snd (unpack_orm ex_lib ex_fs ''in/tex.png'' ''out'' ''nope'' True True True))
       = files ex_fs" by blast
  ultimately show ?thesis using u ex_ensure ex_load [of ex_lib] by simp
qed

subsection \<open>Saving one channel\<close>




subsection \<open>The invert flags and the AO output\<close>

text \<open>
  C9. Two calls of \<^verbatim>\<open>unpack_orm\<close> on the same file system, input, output folder and
  preset, that differ only in \<^verbatim>\<open>invert_roughness\<close> and \<^verbatim>\<open>invert_metallic\<close>: they
  return the same paths, or fail with the same error, and the AO file read back
  after the one is the AO file read back after the other. The AO path a call
  returns is the path with the suffix \<^verbatim>\<open>_AO.png\<close>.
\<close>

theorem ao_output_ignores_invert_flags:
  "fst (unpack_orm lib fs input_path output_dir preset_name
          invert_roughness invert_metallic export_alpha_as_height)
     = fst (unpack_orm lib fs input_path output_dir preset_name
          invert_roughness' invert_metallic' export_alpha_as_height)
   \<and> Image_open (snd (unpack_orm lib fs input_path output_dir preset_name
          invert_roughness invert_metallic export_alpha_as_height))
        (output_path output_dir input_path ''_AO.png'')
     = Image_open (snd (unpack_orm lib fs input_path output_dir preset_name
          invert_roughness' invert_metallic' export_alpha_as_height))
        (output_path output_dir input_path ''_AO.png'')
   \<and> (\<forall>ao_path rough_path metal_path height fs'.
         unpack_orm lib fs input_path output_dir preset_name
           invert_roughness invert_metallic export_alpha_as_height
         = (Inr (ao_path, rough_path, metal_path, height), fs') \<longrightarrow>
         ao_path = output_path output_dir input_path ''_AO.png'')"
proof (intro conjI allI impI)
  let ?A = "output_path output_dir input_path ''_AO.png''"
  let ?s = "snd (unpack_orm lib fs input_path output_dir preset_name
          invert_roughness invert_metallic export_alpha_as_height)"
  let ?t = "snd (unpack_orm lib fs input_path output_dir preset_name
          invert_roughness' invert_metallic' export_alpha_as_height)"
  note ag = unpack_orm_agree [of lib fs input_path output_dir preset_name
      invert_roughness invert_metallic export_alpha_as_height invert_roughness' invert_metallic']
  from ag show "fst (unpack_orm lib fs input_path output_dir preset_name
          invert_roughness invert_metallic export_alpha_as_height)
     = fst (unpack_orm lib fs input_path output_dir preset_name
          invert_roughness' invert_metallic' export_alpha_as_height)"
    by simp
  from ag have d: "dirs ?s = dirs ?t"
    and f: "\<And>n. n \<notin> {node_of (output_path output_dir input_path ''_Roughness.png''),
                       node_of (output_path output_dir input_path ''_Metallic.png'')}
              \<Longrightarrow> files ?s n = files ?t n"
    unfolding agree_outside_def by blast+
  have "node_of ?A \<notin> {node_of (output_path output_dir input_path ''_Roughness.png''),
                       node_of (output_path output_dir input_path ''_Metallic.png'')}"
    using output_nodes_distinct [of output_dir input_path] by auto
  from f [OF this] d show "Image_open ?s ?A = Image_open ?t ?A"
    by (simp add: Image_open_def is_dir_def)
next
  fix ao_path rough_path metal_path height fs'
  assume "unpack_orm lib fs input_path output_dir preset_name
           invert_roughness invert_metallic export_alpha_as_height
         = (Inr (ao_path, rough_path, metal_path, height), fs')"
  from unpack_orm_Inr [OF this] show "ao_path = output_path output_dir input_path ''_AO.png''"
    by (auto split: if_splits)
qed

text \<open>The example, with both flags off and with both flags on: AO is 10 everywhere.\<close>

theorem ao_output_ignores_invert_flags_witness:
  "fst (unpack_orm ex_lib ex_fs ''in/tex.png'' ''out'' default_preset_name False False True)
     = fst (unpack_orm ex_lib ex_fs ''in/tex.png'' ''out'' default_preset_name True True True)
   \<and> Image_open (snd (unpack_orm ex_lib ex_fs ''in/tex.png'' ''out'' default_preset_name
                         False False True)) ''out/tex_AO.png''
     = Image_open (snd (unpack_orm ex_lib ex_fs ''in/tex.png'' ''out'' default_preset_name
                         True True True)) ''out/tex_AO.png''
   \<and> Image_open (snd (unpack_orm ex_lib ex_fs ''in/tex.png'' ''out'' default_preset_name
                         True True True)) ''out/tex_AO.png''
     = Inr \<lparr>mode = ''L'', dims = (2, 2), bands = [[10, 10, 10, 10]], readable = True\<rparr>"
proof -
  have p: "map_of PRESETS default_preset_name = Some (''R'', ''G'', ''B'')"
    by (simp add: PRESETS_def default_preset_name_def)
  from ex_unpack_succeeds [OF p, of True True True] obtain fs' where
    run: "unpack_orm ex_lib ex_fs ''in/tex.png'' ''out'' default_preset_name True True True
          = (Inr (''out/tex_AO.png'', ''out/tex_Roughness.png'', ''out/tex_Metallic.png'',
                  Some ''out/tex_Height.png''), fs')"
    by auto
  from unpack_orm_reread(1) [OF run ex_load0 p]
  have ao: "Image_open (snd (unpack_orm ex_lib ex_fs ''in/tex.png'' ''out'' default_preset_name
                         True True True)) ''out/tex_AO.png''
     = Inr \<lparr>mode = ''L'', dims = (2, 2), bands = [[10, 10, 10, 10]], readable = True\<rparr>"
    by (simp add: run band_image_def channel_index_def ex_img_def)
  from ao_output_ignores_invert_flags [where lib = ex_lib and fs = ex_fs
      and input_path = "''in/tex.png''" and output_dir = "''out''"
      and preset_name = default_preset_name and invert_roughness = False
      and invert_metallic = False and invert_roughness' = True and invert_metallic' = True
      and export_alpha_as_height = True]
  have "fst (unpack_orm ex_lib ex_fs ''in/tex.png'' ''out'' default_preset_name False False True)
     = fst (unpack_orm ex_lib ex_fs ''in/tex.png'' ''out'' default_preset_name True True True)"
    and "Image_open (snd (unpack_orm ex_lib ex_fs ''in/tex.png'' ''out'' default_preset_name
                         False False True)) ''out/tex_AO.png''
     = Image_open (snd (unpack_orm ex_lib ex_fs ''in/tex.png'' ''out'' default_preset_name
                         True True True)) ''out/tex_AO.png''"
    by (simp_all add: ex_output_paths)
  with ao show ?thesis by simp
qed

subsection \<open>Batch traversal\<close>

lemma lower_char_dot [simp]: "lower_char c = CHR ''.'' \<longleftrightarrow> c = CHR ''.''"
  by (auto simp: lower_char_def split: option.splits dest!: map_of_SomeD)

lemma lower_char_dot' [simp]: "CHR ''.'' = lower_char c \<longleftrightarrow> c = CHR ''.''"
  by (metis lower_char_dot)

lemma str_lower_length [simp]: "length (str_lower s) = length s"
  by (simp add: str_lower_def)













end
